theory Spec2Isabelle
  imports Complex_Main "HOL-Library.Extended_Nat"
begin

section \<open>Data model of \<open>scripts/main.js\<close>\<close>

text \<open>
  Positions are the script's \<open>{x, y, z}\<close> objects. A player's \<open>location\<close> carries
  continuous coordinates; every position the script builds for a block lookup comes from
  \<open>Math.floor\<close> and integer offsets, so block positions carry integers. The fields are
  named \<open>vx\<close>, \<open>vy\<close>, \<open>vz\<close> (the script's \<open>x\<close>, \<open>y\<close>, \<open>z\<close>).
\<close>

record 'a vector3 =
  vx :: 'a
  vy :: 'a
  vz :: 'a

record block =
  typeId :: string

record player =
  playerId :: string
  location :: "real vector3"
  isSneaking :: bool
  isJumping :: bool

record dimension =
  getBlock :: "int vector3 \<Rightarrow> block option"
  getPlayers :: "player list"

type_synonym world = "string \<Rightarrow> dimension"

record playerState =
  hasTeleportedDown :: bool
  hasTeleportedUp :: bool

record config_rec =
  maximum :: int
  miniLimit :: int
  maxLimitOW :: int
  maxLimitETC :: int
  dimensions :: "string list"

definition allowedBlocks :: "string list" where
  "allowedBlocks =
     [''minecraft:diamond_block'', ''minecraft:netherite_block'', ''minecraft:emerald_block'',
      ''minecraft:lapis_block'', ''minecraft:gold_block'', ''minecraft:iron_block'',
      ''minecraft:copper_block'']"

definition config :: config_rec where
  "config =
     \<lparr>maximum = 100, miniLimit = -65, maxLimitOW = 340, maxLimitETC = 255,
      dimensions = [''minecraft:nether'', ''minecraft:overworld'', ''minecraft:the_end'']\<rparr>"

text \<open>
  The host's \<open>player.teleport(target)\<close>: the player handle's location becomes the target.
  Every call is also appended to a log of (player id, target) pairs, which is how the
  theorems below observe that a teleport was invoked.
\<close>

type_synonym teleportLog = "(string \<times> real vector3) list"

definition teleport :: "player \<Rightarrow> real vector3 \<Rightarrow> player" where
  "teleport p target = p\<lparr>location := target\<rparr>"

section \<open>Player state store\<close>

text \<open>
  \<open>playerStates\<close> is a \<open>Map\<close> from player id to a mutable state object. The model passes
  the map explicitly; \<open>getPlayerState\<close> returns the map (with the fresh entry when the id
  was absent) together with the entry's value.
\<close>

definition getPlayerState ::
  "(string \<rightharpoonup> playerState) \<Rightarrow> string \<Rightarrow> (string \<rightharpoonup> playerState) \<times> playerState" where
  "getPlayerState playerStates pid =
     (case playerStates pid of
        None \<Rightarrow>
          (playerStates(pid \<mapsto> \<lparr>hasTeleportedDown = False, hasTeleportedUp = False\<rparr>),
           \<lparr>hasTeleportedDown = False, hasTeleportedUp = False\<rparr>)
      | Some st \<Rightarrow> (playerStates, st))"

definition resetPlayerState :: "playerState \<Rightarrow> player \<Rightarrow> playerState" where
  "resetPlayerState playerState p =
     (let s1 = (if \<not> isSneaking p then playerState\<lparr>hasTeleportedDown := False\<rparr>
                else playerState);
          s2 = (if \<not> isJumping p then s1\<lparr>hasTeleportedUp := False\<rparr> else s1)
      in s2)"

section \<open>The two scans\<close>

text \<open>
  The three locals of a scan: \<open>minDistance\<close> (initially \<open>Infinity\<close>), \<open>nearestBlock\<close>
  (initially \<open>null\<close>) and \<open>foundBlock\<close> (initially \<open>false\<close>).
\<close>

record scan =
  minDistance :: enat
  nearestBlock :: "int vector3 option"
  foundBlock :: bool

definition initScan :: scan where
  "initScan = \<lparr>minDistance = \<infinity>, nearestBlock = None, foundBlock = False\<rparr>"

text \<open>
  The \<open>for\<close> loop of \<open>handleDownTeleport\<close>, entered with \<open>y = -2\<close>: \<open>break\<close> returns the
  locals as they are, \<open>continue\<close> and the end of the body go on with \<open>y - 1\<close>.
\<close>

function downLoop ::
  "config_rec \<Rightarrow> dimension \<Rightarrow> int vector3 \<Rightarrow> string \<Rightarrow> int \<Rightarrow> scan \<Rightarrow> scan" where
  "downLoop cfg dimension pos allowedBlock y s =
     (if y \<ge> - maximum cfg then
        (let checkPos = \<lparr>vx = vx pos, vy = vy pos + y, vz = vz pos\<rparr> in
         if vy checkPos \<le> miniLimit cfg then s
         else
           (case getBlock dimension checkPos of
              None \<Rightarrow> downLoop cfg dimension pos allowedBlock (y - 1) s
            | Some b \<Rightarrow>
                if typeId b \<noteq> allowedBlock then downLoop cfg dimension pos allowedBlock (y - 1) s
                else
                  (let s1 = s\<lparr>foundBlock := True\<rparr>;
                       distance = \<bar>y\<bar>;
                       s2 = (if enat (nat distance) < minDistance s1
                             then s1\<lparr>minDistance := enat (nat distance),
                                     nearestBlock := Some checkPos\<rparr>
                             else s1)
                   in downLoop cfg dimension pos allowedBlock (y - 1) s2)))
      else s)"
  by pat_completeness auto
termination
  by (relation "measure (\<lambda>(cfg, dimension, pos, allowedBlock, y, s). nat (y + maximum cfg + 1))") auto

text \<open>The \<open>for\<close> loop of \<open>handleUpTeleport\<close>, entered with \<open>y = 1\<close>.\<close>

function upLoop ::
  "config_rec \<Rightarrow> dimension \<Rightarrow> int vector3 \<Rightarrow> string \<Rightarrow> string \<Rightarrow> int \<Rightarrow> scan \<Rightarrow> scan" where
  "upLoop cfg dimension pos allowedBlock dimensionName y s =
     (if y \<le> maximum cfg then
        (let checkPos = \<lparr>vx = vx pos, vy = vy pos + y, vz = vz pos\<rparr> in
         if (dimensionName = ''minecraft:overworld'' \<and> vy checkPos \<ge> maxLimitOW cfg) \<or>
            ((dimensionName = ''minecraft:nether'' \<or> dimensionName = ''minecraft:the_end'') \<and>
             vy checkPos \<ge> maxLimitETC cfg)
         then s
         else
           (case getBlock dimension checkPos of
              None \<Rightarrow> upLoop cfg dimension pos allowedBlock dimensionName (y + 1) s
            | Some b \<Rightarrow>
                if typeId b \<noteq> allowedBlock
                then upLoop cfg dimension pos allowedBlock dimensionName (y + 1) s
                else
                  (let s1 = s\<lparr>foundBlock := True\<rparr>;
                       distance = y;
                       s2 = (if enat (nat distance) < minDistance s1
                             then s1\<lparr>minDistance := enat (nat distance),
                                     nearestBlock := Some checkPos\<rparr>
                             else s1)
                   in upLoop cfg dimension pos allowedBlock dimensionName (y + 1) s2)))
      else s)"
  by pat_completeness auto
termination
  by (relation "measure (\<lambda>(cfg, dimension, pos, allowedBlock, dimensionName, y, s).
                           nat (maximum cfg + 1 - y))") auto

declare downLoop.simps [simp del]
declare upLoop.simps [simp del]

text \<open>
  What the test \<open>foundBlock && nearestBlock\<close> after a loop lets through: the found block
  position, or nothing.
\<close>

definition scanResult :: "scan \<Rightarrow> int vector3 option" where
  "scanResult s = (if foundBlock s then nearestBlock s else None)"

text \<open>The landing position: the three \<open>+=\<close> on \<open>nearestBlock\<close>.\<close>

definition landing :: "int vector3 \<Rightarrow> real vector3" where
  "landing nb = \<lparr>vx = of_int (vx nb) + 0.5, vy = of_int (vy nb) + 1, vz = of_int (vz nb) + 0.5\<rparr>"

section \<open>The two handlers\<close>

text \<open>
  A handler mutates the player handle (through \<open>teleport\<close>) and the state object, and calls
  the host; it is modelled as a function from the player, the state object and the log to
  their values on return.
\<close>

definition handleDownTeleport ::
  "config_rec \<Rightarrow> player \<Rightarrow> dimension \<Rightarrow> int vector3 \<Rightarrow> string \<Rightarrow> playerState \<Rightarrow> teleportLog
     \<Rightarrow> player \<times> playerState \<times> teleportLog" where
  "handleDownTeleport cfg p dimension pos allowedBlock playerState calls =
     (if \<not> isSneaking p \<or> isJumping p \<or> hasTeleportedDown playerState
      then (p, playerState, calls)
      else
        (case scanResult (downLoop cfg dimension pos allowedBlock (- 2) initScan) of
           None \<Rightarrow> (p, playerState, calls)
         | Some nb \<Rightarrow>
             (teleport p (landing nb),
              playerState\<lparr>hasTeleportedDown := True\<rparr>,
              calls @ [(playerId p, landing nb)])))"

definition handleUpTeleport ::
  "config_rec \<Rightarrow> player \<Rightarrow> dimension \<Rightarrow> int vector3 \<Rightarrow> string \<Rightarrow> playerState \<Rightarrow> string
     \<Rightarrow> teleportLog \<Rightarrow> player \<times> playerState \<times> teleportLog" where
  "handleUpTeleport cfg p dimension pos allowedBlock playerState dimensionName calls =
     (if \<not> isJumping p \<or> isSneaking p \<or> hasTeleportedUp playerState
      then (p, playerState, calls)
      else
        (case scanResult (upLoop cfg dimension pos allowedBlock dimensionName 1 initScan) of
           None \<Rightarrow> (p, playerState, calls)
         | Some nb \<Rightarrow>
             (teleport p (landing nb),
              playerState\<lparr>hasTeleportedUp := True\<rparr>,
              calls @ [(playerId p, landing nb)])))"

section \<open>The tick\<close>

definition floorPos :: "real vector3 \<Rightarrow> int vector3" where
  "floorPos l = \<lparr>vx = \<lfloor>vx l\<rfloor>, vy = \<lfloor>vy l\<rfloor>, vz = \<lfloor>vz l\<rfloor>\<rparr>"

text \<open>
  The body of the innermost loop, for one player and one allowed block type. The state
  object is shared with the store, so each mutation of it is written to the map.
\<close>

definition blockTypeStep ::
  "config_rec \<Rightarrow> dimension \<Rightarrow> string \<Rightarrow> string
     \<Rightarrow> player \<times> (string \<rightharpoonup> playerState) \<times> teleportLog
     \<Rightarrow> player \<times> (string \<rightharpoonup> playerState) \<times> teleportLog" where
  "blockTypeStep cfg dimension dimensionName allowedBlock = (\<lambda>(p, playerStates, calls).
     (let pos = floorPos (location p);
          (playerStates1, st0) = getPlayerState playerStates (playerId p);
          playerState = resetPlayerState st0 p;
          playerStates2 = playerStates1(playerId p \<mapsto> playerState);
          belowPos = \<lparr>vx = vx pos, vy = vy pos - 1, vz = vz pos\<rparr>
      in
        (case getBlock dimension belowPos of
           None \<Rightarrow> (p, playerStates2, calls)
         | Some belowBlock \<Rightarrow>
             if typeId belowBlock \<noteq> allowedBlock then (p, playerStates2, calls)
             else
               (let (p1, st1, calls1) =
                      handleDownTeleport cfg p dimension pos allowedBlock playerState calls;
                    (p2, st2, calls2) =
                      handleUpTeleport cfg p1 dimension pos allowedBlock st1 dimensionName calls1
                in (p2, playerStates2(playerId p \<mapsto> st2), calls2)))))"

primrec blockTypesLoop ::
  "config_rec \<Rightarrow> dimension \<Rightarrow> string \<Rightarrow> string list
     \<Rightarrow> player \<times> (string \<rightharpoonup> playerState) \<times> teleportLog
     \<Rightarrow> player \<times> (string \<rightharpoonup> playerState) \<times> teleportLog" where
  "blockTypesLoop cfg dimension dimensionName [] acc = acc"
| "blockTypesLoop cfg dimension dimensionName (allowedBlock # rest) acc =
     blockTypesLoop cfg dimension dimensionName rest
       (blockTypeStep cfg dimension dimensionName allowedBlock acc)"

primrec playersLoop ::
  "config_rec \<Rightarrow> dimension \<Rightarrow> string \<Rightarrow> player list
     \<Rightarrow> (string \<rightharpoonup> playerState) \<times> teleportLog
     \<Rightarrow> (string \<rightharpoonup> playerState) \<times> teleportLog" where
  "playersLoop cfg dimension dimensionName [] acc = acc"
| "playersLoop cfg dimension dimensionName (p # rest) acc =
     playersLoop cfg dimension dimensionName rest
       (snd (blockTypesLoop cfg dimension dimensionName allowedBlocks (p, acc)))"

primrec dimensionsLoop ::
  "config_rec \<Rightarrow> world \<Rightarrow> string list
     \<Rightarrow> (string \<rightharpoonup> playerState) \<times> teleportLog
     \<Rightarrow> (string \<rightharpoonup> playerState) \<times> teleportLog" where
  "dimensionsLoop cfg w [] acc = acc"
| "dimensionsLoop cfg w (dimensionName # rest) acc =
     dimensionsLoop cfg w rest
       (playersLoop cfg (w dimensionName) dimensionName (getPlayers (w dimensionName)) acc)"

text \<open>
  One run of the interval callback: the store as it was left by the previous run goes in,
  the store and the teleports of this run come out.
\<close>

definition tick ::
  "config_rec \<Rightarrow> world \<Rightarrow> (string \<rightharpoonup> playerState) \<Rightarrow> (string \<rightharpoonup> playerState) \<times> teleportLog" where
  "tick cfg w playerStates = dimensionsLoop cfg w (dimensions cfg) (playerStates, [])"

section \<open>The simplified scans\<close>

text \<open>
  The scans as the design notes allow them to be simplified: the same offsets, the same
  bound checks and the same lookups, returning at the first match instead of tracking a
  running minimum.
\<close>

function downFirst ::
  "config_rec \<Rightarrow> dimension \<Rightarrow> int vector3 \<Rightarrow> string \<Rightarrow> int \<Rightarrow> int vector3 option" where
  "downFirst cfg dimension pos allowedBlock y =
     (if y \<ge> - maximum cfg then
        (let checkPos = \<lparr>vx = vx pos, vy = vy pos + y, vz = vz pos\<rparr> in
         if vy checkPos \<le> miniLimit cfg then None
         else
           (case getBlock dimension checkPos of
              None \<Rightarrow> downFirst cfg dimension pos allowedBlock (y - 1)
            | Some b \<Rightarrow>
                if typeId b \<noteq> allowedBlock then downFirst cfg dimension pos allowedBlock (y - 1)
                else Some checkPos))
      else None)"
  by pat_completeness auto
termination
  by (relation "measure (\<lambda>(cfg, dimension, pos, allowedBlock, y). nat (y + maximum cfg + 1))")
     auto

function upFirst ::
  "config_rec \<Rightarrow> dimension \<Rightarrow> int vector3 \<Rightarrow> string \<Rightarrow> string \<Rightarrow> int \<Rightarrow> int vector3 option" where
  "upFirst cfg dimension pos allowedBlock dimensionName y =
     (if y \<le> maximum cfg then
        (let checkPos = \<lparr>vx = vx pos, vy = vy pos + y, vz = vz pos\<rparr> in
         if (dimensionName = ''minecraft:overworld'' \<and> vy checkPos \<ge> maxLimitOW cfg) \<or>
            ((dimensionName = ''minecraft:nether'' \<or> dimensionName = ''minecraft:the_end'') \<and>
             vy checkPos \<ge> maxLimitETC cfg)
         then None
         else
           (case getBlock dimension checkPos of
              None \<Rightarrow> upFirst cfg dimension pos allowedBlock dimensionName (y + 1)
            | Some b \<Rightarrow>
                if typeId b \<noteq> allowedBlock
                then upFirst cfg dimension pos allowedBlock dimensionName (y + 1)
                else Some checkPos))
      else None)"
  by pat_completeness auto
termination
  by (relation "measure (\<lambda>(cfg, dimension, pos, allowedBlock, dimensionName, y).
                           nat (maximum cfg + 1 - y))") auto

declare downFirst.simps [simp del]
declare upFirst.simps [simp del]

text \<open>
  The test a scan step applies to a position: a block is there and its type is the target
  type. (The script tests the negation, \<open>!block || block.typeId !== allowedBlock\<close>.)
\<close>

definition matching :: "dimension \<Rightarrow> string \<Rightarrow> int vector3 \<Rightarrow> bool" where
  "matching dimension allowedBlock checkPos =
     (case getBlock dimension checkPos of None \<Rightarrow> False | Some b \<Rightarrow> typeId b = allowedBlock)"

text \<open>The position a scan checks at offset \<open>y\<close>.\<close>

definition checkPosAt :: "int vector3 \<Rightarrow> int \<Rightarrow> int vector3" where
  "checkPosAt pos y = \<lparr>vx = vx pos, vy = vy pos + y, vz = vz pos\<rparr>"

text \<open>The upward scan's \<open>break\<close> condition on a checked height.\<close>

definition upStop :: "config_rec \<Rightarrow> string \<Rightarrow> int \<Rightarrow> bool" where
  "upStop cfg dimensionName cy =
     ((dimensionName = ''minecraft:overworld'' \<and> cy \<ge> maxLimitOW cfg) \<or>
      ((dimensionName = ''minecraft:nether'' \<or> dimensionName = ''minecraft:the_end'') \<and>
       cy \<ge> maxLimitETC cfg))"

text \<open>
  The state object the loop body holds for a player once \<open>getPlayerState\<close> and
  \<open>resetPlayerState\<close> have run.
\<close>

definition observedState :: "(string \<rightharpoonup> playerState) \<Rightarrow> player \<Rightarrow> playerState" where
  "observedState playerStates p =
     resetPlayerState (snd (getPlayerState playerStates (playerId p))) p"

text \<open>Successive runs of the interval callback, one world snapshot per run.\<close>

primrec ticks ::
  "config_rec \<Rightarrow> world list \<Rightarrow> (string \<rightharpoonup> playerState)
     \<Rightarrow> (string \<rightharpoonup> playerState) \<times> teleportLog" where
  "ticks cfg [] playerStates = (playerStates, [])"
| "ticks cfg (w # ws) playerStates =
     (let (playerStates1, calls1) = tick cfg w playerStates;
          (playerStates2, calls2) = ticks cfg ws playerStates1
      in (playerStates2, calls1 @ calls2))"

text \<open>
  The invariant of a tick for a player id \<open>i\<close> whose handles all carry the inputs \<open>sn\<close>
  (sneaking) and \<open>jp\<close> (jumping): no teleport of \<open>i\<close> is logged so far, or exactly one is
  and the cooldown flag of the direction that these inputs open is set in the store.
\<close>

definition firedOnce :: "string \<Rightarrow> bool \<Rightarrow> bool \<Rightarrow> (string \<rightharpoonup> playerState) \<times> teleportLog \<Rightarrow> bool" where
  "firedOnce i sn jp acc =
     (filter (\<lambda>c. fst c = i) (snd acc) = [] \<or>
      (length (filter (\<lambda>c. fst c = i) (snd acc)) = 1 \<and>
       ((sn \<and> \<not> jp \<and> (\<exists>st. fst acc i = Some st \<and> hasTeleportedDown st)) \<or>
        (jp \<and> \<not> sn \<and> (\<exists>st. fst acc i = Some st \<and> hasTeleportedUp st)))))"

section \<open>Scenario worlds\<close>

text \<open>
  A column of blocks of one type at \<open>x = 0\<close>, \<open>z = 0\<close> and the listed heights, nothing
  elsewhere; a world with one populated region; and the two players of the scenarios.
\<close>

definition column :: "string \<Rightarrow> int list \<Rightarrow> int vector3 \<Rightarrow> block option" where
  "column t ys = (\<lambda>cp. if vx cp = 0 \<and> vz cp = 0 \<and> vy cp \<in> set ys
                        then Some \<lparr>typeId = t\<rparr> else None)"

definition emptyDimension :: dimension where
  "emptyDimension = \<lparr>getBlock = (\<lambda>cp. None), getPlayers = []\<rparr>"

definition onlyIn :: "string \<Rightarrow> dimension \<Rightarrow> world" where
  "onlyIn name d = (\<lambda>dimensionName. if dimensionName = name then d else emptyDimension)"

definition sneaker :: player where
  "sneaker = \<lparr>playerId = ''steve'', location = \<lparr>vx = 0, vy = 10, vz = 0\<rparr>,
              isSneaking = True, isJumping = False\<rparr>"

definition jumper :: player where
  "jumper = \<lparr>playerId = ''steve'', location = \<lparr>vx = 0, vy = 330, vz = 0\<rparr>,
             isSneaking = False, isJumping = True\<rparr>"

definition shaftDown :: dimension where
  "shaftDown = \<lparr>getBlock = column ''minecraft:diamond_block'' [9, 5, 2],
                getPlayers = [sneaker]\<rparr>"

definition shaftUp :: dimension where
  "shaftUp = \<lparr>getBlock = column ''minecraft:diamond_block'' [329, 338],
              getPlayers = [jumper]\<rparr>"

section \<open>One step of a scan\<close>


lemma matching_None: "getBlock dimension cp = None \<Longrightarrow> \<not> matching dimension allowedBlock cp"
  by (simp add: matching_def)

lemma matching_Some:
  "getBlock dimension cp = Some b \<Longrightarrow> matching dimension allowedBlock cp = (typeId b = allowedBlock)"
  by (simp add: matching_def)

lemma downLoop_end: "y < - maximum cfg \<Longrightarrow> downLoop cfg dimension pos allowedBlock y s = s"
  by (subst downLoop.simps) simp

lemma downLoop_floor:
  "vy pos + y \<le> miniLimit cfg \<Longrightarrow> downLoop cfg dimension pos allowedBlock y s = s"
  by (subst downLoop.simps) (simp add: Let_def)

lemma downLoop_skip:
  "- maximum cfg \<le> y \<Longrightarrow> miniLimit cfg < vy pos + y \<Longrightarrow>
   \<not> matching dimension allowedBlock (checkPosAt pos y) \<Longrightarrow>
   downLoop cfg dimension pos allowedBlock y s = downLoop cfg dimension pos allowedBlock (y - 1) s"
  by (subst downLoop.simps) (simp add: Let_def matching_def checkPosAt_def split: option.splits)

lemma downLoop_hit:
  "- maximum cfg \<le> y \<Longrightarrow> miniLimit cfg < vy pos + y \<Longrightarrow>
   matching dimension allowedBlock (checkPosAt pos y) \<Longrightarrow>
   downLoop cfg dimension pos allowedBlock y s =
   downLoop cfg dimension pos allowedBlock (y - 1)
     (if enat (nat \<bar>y\<bar>) < minDistance s
      then s\<lparr>foundBlock := True, minDistance := enat (nat \<bar>y\<bar>),
              nearestBlock := Some (checkPosAt pos y)\<rparr>
      else s\<lparr>foundBlock := True\<rparr>)"
  by (subst downLoop.simps) (simp add: Let_def matching_def checkPosAt_def split: option.splits)

lemma found_same: "foundBlock s \<Longrightarrow> s\<lparr>foundBlock := True\<rparr> = s"
  by simp

lemma downLoop_found_stable_ind:
  "nat (y + maximum cfg + 1) = n \<Longrightarrow> foundBlock s \<Longrightarrow> minDistance s \<le> enat (nat \<bar>y\<bar>) \<Longrightarrow>
   y \<le> 0 \<Longrightarrow> downLoop cfg dimension pos allowedBlock y s = s"
proof (induction n arbitrary: y)
  case 0
  then show ?case by (simp add: downLoop_end)
next
  case (Suc n)
  have le: "minDistance s \<le> enat (nat \<bar>y - 1\<bar>)"
    using Suc.prems(3,4) by (cases "minDistance s") auto
  have rec: "downLoop cfg dimension pos allowedBlock (y - 1) s = s"
    using Suc.prems le by (intro Suc.IH) auto
  have inr: "- maximum cfg \<le> y" using Suc.prems(1) by linarith
  show ?case
  proof (cases "vy pos + y \<le> miniLimit cfg")
    case True
    then show ?thesis by (rule downLoop_floor)
  next
    case above: False
    show ?thesis
    proof (cases "matching dimension allowedBlock (checkPosAt pos y)")
      case False
      with inr above rec show ?thesis by (simp add: downLoop_skip)
    next
      case True
      have "\<not> enat (nat \<bar>y\<bar>) < minDistance s" using Suc.prems(3) by simp
      with True inr above rec Suc.prems(2) show ?thesis
        by (simp add: downLoop_hit found_same)
    qed
  qed
qed

lemma downFirst_end: "y < - maximum cfg \<Longrightarrow> downFirst cfg dimension pos allowedBlock y = None"
  by (subst downFirst.simps) simp

lemma downFirst_floor:
  "vy pos + y \<le> miniLimit cfg \<Longrightarrow> downFirst cfg dimension pos allowedBlock y = None"
  by (subst downFirst.simps) (simp add: Let_def)

lemma downFirst_skip:
  "- maximum cfg \<le> y \<Longrightarrow> miniLimit cfg < vy pos + y \<Longrightarrow>
   \<not> matching dimension allowedBlock (checkPosAt pos y) \<Longrightarrow>
   downFirst cfg dimension pos allowedBlock y = downFirst cfg dimension pos allowedBlock (y - 1)"
  by (subst downFirst.simps) (simp add: Let_def matching_def checkPosAt_def split: option.splits)

lemma downFirst_hit:
  "- maximum cfg \<le> y \<Longrightarrow> miniLimit cfg < vy pos + y \<Longrightarrow>
   matching dimension allowedBlock (checkPosAt pos y) \<Longrightarrow>
   downFirst cfg dimension pos allowedBlock y = Some (checkPosAt pos y)"
  by (subst downFirst.simps) (simp add: Let_def matching_def checkPosAt_def split: option.splits)

lemma downLoop_first_ind:
  "nat (y + maximum cfg + 1) = n \<Longrightarrow> \<not> foundBlock s \<Longrightarrow> minDistance s = \<infinity> \<Longrightarrow> y \<le> 0 \<Longrightarrow>
   scanResult (downLoop cfg dimension pos allowedBlock y s) =
   downFirst cfg dimension pos allowedBlock y"
proof (induction n arbitrary: y)
  case 0
  then show ?case by (simp add: downLoop_end downFirst_end scanResult_def)
next
  case (Suc n)
  have inr: "- maximum cfg \<le> y" using Suc.prems(1) by linarith
  show ?case
  proof (cases "vy pos + y \<le> miniLimit cfg")
    case True
    with Suc.prems(2) show ?thesis by (simp add: downLoop_floor downFirst_floor scanResult_def)
  next
    case above: False
    show ?thesis
    proof (cases "matching dimension allowedBlock (checkPosAt pos y)")
      case False
      have "scanResult (downLoop cfg dimension pos allowedBlock (y - 1) s) =
            downFirst cfg dimension pos allowedBlock (y - 1)"
        using Suc.prems by (intro Suc.IH) auto
      with False inr above show ?thesis by (simp add: downLoop_skip downFirst_skip)
    next
      case True
      let ?s2 = "s\<lparr>foundBlock := True, minDistance := enat (nat \<bar>y\<bar>),
                    nearestBlock := Some (checkPosAt pos y)\<rparr>"
      have "downLoop cfg dimension pos allowedBlock (y - 1) ?s2 = ?s2"
        using Suc.prems(4) by (intro downLoop_found_stable_ind [OF refl]) auto
      with True inr above Suc.prems(3) show ?thesis
        by (simp add: downLoop_hit downFirst_hit scanResult_def)
    qed
  qed
qed

lemma upLoop_end:
  "maximum cfg < y \<Longrightarrow> upLoop cfg dimension pos allowedBlock dimensionName y s = s"
  by (subst upLoop.simps) simp

lemma upLoop_ceiling:
  "upStop cfg dimensionName (vy pos + y) \<Longrightarrow>
   upLoop cfg dimension pos allowedBlock dimensionName y s = s"
  by (subst upLoop.simps) (auto simp: Let_def upStop_def)

lemma upLoop_skip:
  "y \<le> maximum cfg \<Longrightarrow> \<not> upStop cfg dimensionName (vy pos + y) \<Longrightarrow>
   \<not> matching dimension allowedBlock (checkPosAt pos y) \<Longrightarrow>
   upLoop cfg dimension pos allowedBlock dimensionName y s =
   upLoop cfg dimension pos allowedBlock dimensionName (y + 1) s"
  by (subst upLoop.simps)
     (auto simp: Let_def matching_def checkPosAt_def upStop_def split: option.splits)

lemma upLoop_hit:
  "y \<le> maximum cfg \<Longrightarrow> \<not> upStop cfg dimensionName (vy pos + y) \<Longrightarrow>
   matching dimension allowedBlock (checkPosAt pos y) \<Longrightarrow>
   upLoop cfg dimension pos allowedBlock dimensionName y s =
   upLoop cfg dimension pos allowedBlock dimensionName (y + 1)
     (if enat (nat y) < minDistance s
      then s\<lparr>foundBlock := True, minDistance := enat (nat y),
              nearestBlock := Some (checkPosAt pos y)\<rparr>
      else s\<lparr>foundBlock := True\<rparr>)"
  by (subst upLoop.simps)
     (auto simp: Let_def matching_def checkPosAt_def upStop_def split: option.splits)

lemma upLoop_found_stable_ind:
  "nat (maximum cfg + 1 - y) = n \<Longrightarrow> foundBlock s \<Longrightarrow> minDistance s \<le> enat (nat y) \<Longrightarrow>
   0 \<le> y \<Longrightarrow> upLoop cfg dimension pos allowedBlock dimensionName y s = s"
proof (induction n arbitrary: y)
  case 0
  then show ?case by (simp add: upLoop_end)
next
  case (Suc n)
  have le: "minDistance s \<le> enat (nat (y + 1))"
    using Suc.prems(3,4) by (cases "minDistance s") auto
  have rec: "upLoop cfg dimension pos allowedBlock dimensionName (y + 1) s = s"
    using Suc.prems le by (intro Suc.IH) auto
  have inr: "y \<le> maximum cfg" using Suc.prems(1) by linarith
  show ?case
  proof (cases "upStop cfg dimensionName (vy pos + y)")
    case True
    then show ?thesis by (rule upLoop_ceiling)
  next
    case below: False
    show ?thesis
    proof (cases "matching dimension allowedBlock (checkPosAt pos y)")
      case False
      with inr below rec show ?thesis by (simp add: upLoop_skip)
    next
      case True
      have "\<not> enat (nat y) < minDistance s" using Suc.prems(3) by simp
      with True inr below rec Suc.prems(2) show ?thesis
        by (simp add: upLoop_hit found_same)
    qed
  qed
qed

lemma upFirst_end:
  "maximum cfg < y \<Longrightarrow> upFirst cfg dimension pos allowedBlock dimensionName y = None"
  by (subst upFirst.simps) simp

lemma upFirst_ceiling:
  "upStop cfg dimensionName (vy pos + y) \<Longrightarrow>
   upFirst cfg dimension pos allowedBlock dimensionName y = None"
  by (subst upFirst.simps) (auto simp: Let_def upStop_def)

lemma upFirst_skip:
  "y \<le> maximum cfg \<Longrightarrow> \<not> upStop cfg dimensionName (vy pos + y) \<Longrightarrow>
   \<not> matching dimension allowedBlock (checkPosAt pos y) \<Longrightarrow>
   upFirst cfg dimension pos allowedBlock dimensionName y =
   upFirst cfg dimension pos allowedBlock dimensionName (y + 1)"
  by (subst upFirst.simps)
     (auto simp: Let_def matching_def checkPosAt_def upStop_def split: option.splits)

lemma upFirst_hit:
  "y \<le> maximum cfg \<Longrightarrow> \<not> upStop cfg dimensionName (vy pos + y) \<Longrightarrow>
   matching dimension allowedBlock (checkPosAt pos y) \<Longrightarrow>
   upFirst cfg dimension pos allowedBlock dimensionName y = Some (checkPosAt pos y)"
  by (subst upFirst.simps)
     (auto simp: Let_def matching_def checkPosAt_def upStop_def split: option.splits)

lemma upLoop_first_ind:
  "nat (maximum cfg + 1 - y) = n \<Longrightarrow> \<not> foundBlock s \<Longrightarrow> minDistance s = \<infinity> \<Longrightarrow> 0 \<le> y \<Longrightarrow>
   scanResult (upLoop cfg dimension pos allowedBlock dimensionName y s) =
   upFirst cfg dimension pos allowedBlock dimensionName y"
proof (induction n arbitrary: y)
  case 0
  then show ?case by (simp add: upLoop_end upFirst_end scanResult_def)
next
  case (Suc n)
  have inr: "y \<le> maximum cfg" using Suc.prems(1) by linarith
  show ?case
  proof (cases "upStop cfg dimensionName (vy pos + y)")
    case True
    with Suc.prems(2) show ?thesis by (simp add: upLoop_ceiling upFirst_ceiling scanResult_def)
  next
    case below: False
    show ?thesis
    proof (cases "matching dimension allowedBlock (checkPosAt pos y)")
      case False
      have "scanResult (upLoop cfg dimension pos allowedBlock dimensionName (y + 1) s) =
            upFirst cfg dimension pos allowedBlock dimensionName (y + 1)"
        using Suc.prems by (intro Suc.IH) auto
      with False inr below show ?thesis by (simp add: upLoop_skip upFirst_skip)
    next
      case True
      let ?s2 = "s\<lparr>foundBlock := True, minDistance := enat (nat y),
                    nearestBlock := Some (checkPosAt pos y)\<rparr>"
      have "upLoop cfg dimension pos allowedBlock dimensionName (y + 1) ?s2 = ?s2"
        using Suc.prems(4) by (intro upLoop_found_stable_ind [OF refl]) auto
      with True inr below Suc.prems(3) show ?thesis
        by (simp add: upLoop_hit upFirst_hit scanResult_def)
    qed
  qed
qed

lemma scanDown_first:
  "scanResult (downLoop cfg dimension pos allowedBlock (- 2) initScan) =
   downFirst cfg dimension pos allowedBlock (- 2)"
  by (rule downLoop_first_ind [OF refl]) (simp_all add: initScan_def)

lemma scanUp_first:
  "scanResult (upLoop cfg dimension pos allowedBlock dimensionName 1 initScan) =
   upFirst cfg dimension pos allowedBlock dimensionName 1"
  by (rule upLoop_first_ind [OF refl]) (simp_all add: initScan_def)

lemma downFirst_nearest_ind:
  "nat (y - t) = n \<Longrightarrow> t \<le> y \<Longrightarrow> - maximum cfg \<le> t \<Longrightarrow> miniLimit cfg < vy pos + t \<Longrightarrow>
   matching dimension allowedBlock (checkPosAt pos t) \<Longrightarrow>
   (\<forall>u. t < u \<and> u \<le> y \<longrightarrow> \<not> matching dimension allowedBlock (checkPosAt pos u)) \<Longrightarrow>
   downFirst cfg dimension pos allowedBlock y = Some (checkPosAt pos t)"
proof (induction n arbitrary: y)
  case 0
  then have "y = t" by simp
  with 0 show ?case by (simp add: downFirst_hit)
next
  case (Suc n)
  have lt: "t < y" using Suc.prems(1) by linarith
  have nm: "\<not> matching dimension allowedBlock (checkPosAt pos y)"
    using Suc.prems(6) lt by simp
  have "downFirst cfg dimension pos allowedBlock (y - 1) = Some (checkPosAt pos t)"
    using Suc.prems lt by (intro Suc.IH) auto
  moreover have "- maximum cfg \<le> y" "miniLimit cfg < vy pos + y"
    using Suc.prems(3,4) lt by linarith+
  ultimately show ?case using nm by (simp add: downFirst_skip)
qed

lemma upFirst_nearest_ind:
  "nat (t - y) = n \<Longrightarrow> y \<le> t \<Longrightarrow> t \<le> maximum cfg \<Longrightarrow>
   (\<forall>u. y \<le> u \<and> u \<le> t \<longrightarrow> \<not> upStop cfg dimensionName (vy pos + u)) \<Longrightarrow>
   matching dimension allowedBlock (checkPosAt pos t) \<Longrightarrow>
   (\<forall>u. y \<le> u \<and> u < t \<longrightarrow> \<not> matching dimension allowedBlock (checkPosAt pos u)) \<Longrightarrow>
   upFirst cfg dimension pos allowedBlock dimensionName y = Some (checkPosAt pos t)"
proof (induction n arbitrary: y)
  case 0
  then have "y = t" by simp
  with 0 show ?case by (simp add: upFirst_hit)
next
  case (Suc n)
  have lt: "y < t" using Suc.prems(1) by linarith
  have nm: "\<not> matching dimension allowedBlock (checkPosAt pos y)"
    using Suc.prems(6) lt by simp
  have ns: "\<not> upStop cfg dimensionName (vy pos + y)"
    using Suc.prems(4) lt by simp
  have "upFirst cfg dimension pos allowedBlock dimensionName (y + 1) = Some (checkPosAt pos t)"
    using Suc.prems lt by (intro Suc.IH) auto
  moreover have "y \<le> maximum cfg" using Suc.prems(3) lt by linarith
  ultimately show ?case using nm ns by (simp add: upFirst_skip)
qed

lemma downFirst_sound_ind:
  "nat (y + maximum cfg + 1) = n \<Longrightarrow> downFirst cfg dimension pos allowedBlock y = Some nb \<Longrightarrow>
   \<exists>t. t \<le> y \<and> - maximum cfg \<le> t \<and> miniLimit cfg < vy pos + t \<and> nb = checkPosAt pos t \<and>
       matching dimension allowedBlock nb"
proof (induction n arbitrary: y)
  case 0
  then show ?case by (simp add: downFirst_end)
next
  case (Suc n)
  have inr: "- maximum cfg \<le> y" using Suc.prems(1) by linarith
  have above: "miniLimit cfg < vy pos + y"
    using Suc.prems(2) by (cases "vy pos + y \<le> miniLimit cfg") (simp_all add: downFirst_floor)
  show ?case
  proof (cases "matching dimension allowedBlock (checkPosAt pos y)")
    case True
    with inr above Suc.prems(2) have "nb = checkPosAt pos y" by (simp add: downFirst_hit)
    with True inr above show ?thesis by auto
  next
    case False
    with inr above Suc.prems(2)
    have "downFirst cfg dimension pos allowedBlock (y - 1) = Some nb"
      by (simp add: downFirst_skip)
    moreover have "nat (y - 1 + maximum cfg + 1) = n" using Suc.prems(1) by linarith
    ultimately obtain t where "t \<le> y - 1" "- maximum cfg \<le> t" "miniLimit cfg < vy pos + t"
      "nb = checkPosAt pos t" "matching dimension allowedBlock nb"
      using Suc.IH by blast
    then show ?thesis by (intro exI [of _ t]) auto
  qed
qed

lemma upFirst_sound_ind:
  "nat (maximum cfg + 1 - y) = n \<Longrightarrow>
   upFirst cfg dimension pos allowedBlock dimensionName y = Some nb \<Longrightarrow>
   \<exists>t. y \<le> t \<and> t \<le> maximum cfg \<and> \<not> upStop cfg dimensionName (vy pos + t) \<and>
       nb = checkPosAt pos t \<and> matching dimension allowedBlock nb"
proof (induction n arbitrary: y)
  case 0
  then show ?case by (simp add: upFirst_end)
next
  case (Suc n)
  have inr: "y \<le> maximum cfg" using Suc.prems(1) by linarith
  have below: "\<not> upStop cfg dimensionName (vy pos + y)"
    using Suc.prems(2) by (cases "upStop cfg dimensionName (vy pos + y)")
      (simp_all add: upFirst_ceiling)
  show ?case
  proof (cases "matching dimension allowedBlock (checkPosAt pos y)")
    case True
    with inr below Suc.prems(2) have "nb = checkPosAt pos y" by (simp add: upFirst_hit)
    with True inr below show ?thesis by auto
  next
    case False
    with inr below Suc.prems(2)
    have "upFirst cfg dimension pos allowedBlock dimensionName (y + 1) = Some nb"
      by (simp add: upFirst_skip)
    moreover have "nat (maximum cfg + 1 - (y + 1)) = n" using Suc.prems(1) by linarith
    ultimately obtain t where "y + 1 \<le> t" "t \<le> maximum cfg"
      "\<not> upStop cfg dimensionName (vy pos + t)"
      "nb = checkPosAt pos t" "matching dimension allowedBlock nb"
      using Suc.IH by blast
    then show ?thesis by (intro exI [of _ t]) auto
  qed
qed

section \<open>What a scan returns\<close>

lemma downFirst_nearest:
  "t \<le> y \<Longrightarrow> - maximum cfg \<le> t \<Longrightarrow> miniLimit cfg < vy pos + t \<Longrightarrow>
   matching dimension allowedBlock (checkPosAt pos t) \<Longrightarrow>
   (\<forall>u. t < u \<and> u \<le> y \<longrightarrow> \<not> matching dimension allowedBlock (checkPosAt pos u)) \<Longrightarrow>
   downFirst cfg dimension pos allowedBlock y = Some (checkPosAt pos t)"
  by (rule downFirst_nearest_ind [OF refl])

lemma upFirst_nearest:
  "y \<le> t \<Longrightarrow> t \<le> maximum cfg \<Longrightarrow>
   (\<forall>u. y \<le> u \<and> u \<le> t \<longrightarrow> \<not> upStop cfg dimensionName (vy pos + u)) \<Longrightarrow>
   matching dimension allowedBlock (checkPosAt pos t) \<Longrightarrow>
   (\<forall>u. y \<le> u \<and> u < t \<longrightarrow> \<not> matching dimension allowedBlock (checkPosAt pos u)) \<Longrightarrow>
   upFirst cfg dimension pos allowedBlock dimensionName y = Some (checkPosAt pos t)"
  by (rule upFirst_nearest_ind [OF refl])

lemma downFirst_sound:
  "downFirst cfg dimension pos allowedBlock y = Some nb \<Longrightarrow>
   \<exists>t. t \<le> y \<and> - maximum cfg \<le> t \<and> miniLimit cfg < vy pos + t \<and> nb = checkPosAt pos t \<and>
       matching dimension allowedBlock nb"
  by (rule downFirst_sound_ind [OF refl])

lemma upFirst_sound:
  "upFirst cfg dimension pos allowedBlock dimensionName y = Some nb \<Longrightarrow>
   \<exists>t. y \<le> t \<and> t \<le> maximum cfg \<and> \<not> upStop cfg dimensionName (vy pos + t) \<and>
       nb = checkPosAt pos t \<and> matching dimension allowedBlock nb"
  by (rule upFirst_sound_ind [OF refl])

lemma column_matching:
  "matching \<lparr>getBlock = column t ys, getPlayers = ps\<rparr> b cp =
     (vx cp = 0 \<and> vz cp = 0 \<and> vy cp \<in> set ys \<and> t = b)"
  by (auto simp: matching_def column_def)

section \<open>Handlers, loop body and loops\<close>


lemma handleDown_gated:
  "\<not> isSneaking p \<or> isJumping p \<or> hasTeleportedDown st \<Longrightarrow>
   handleDownTeleport cfg p dimension pos allowedBlock st calls = (p, st, calls)"
  by (simp add: handleDownTeleport_def)

lemma handleUp_gated:
  "\<not> isJumping p \<or> isSneaking p \<or> hasTeleportedUp st \<Longrightarrow>
   handleUpTeleport cfg p dimension pos allowedBlock st dimensionName calls = (p, st, calls)"
  by (simp add: handleUpTeleport_def)

lemma handleDown_open:
  "isSneaking p \<Longrightarrow> \<not> isJumping p \<Longrightarrow> \<not> hasTeleportedDown st \<Longrightarrow>
   handleDownTeleport cfg p dimension pos allowedBlock st calls =
   (case scanResult (downLoop cfg dimension pos allowedBlock (- 2) initScan) of
      None \<Rightarrow> (p, st, calls)
    | Some nb \<Rightarrow> (teleport p (landing nb), st\<lparr>hasTeleportedDown := True\<rparr>,
                  calls @ [(playerId p, landing nb)]))"
  by (simp add: handleDownTeleport_def)

lemma handleUp_open:
  "isJumping p \<Longrightarrow> \<not> isSneaking p \<Longrightarrow> \<not> hasTeleportedUp st \<Longrightarrow>
   handleUpTeleport cfg p dimension pos allowedBlock st dimensionName calls =
   (case scanResult (upLoop cfg dimension pos allowedBlock dimensionName 1 initScan) of
      None \<Rightarrow> (p, st, calls)
    | Some nb \<Rightarrow> (teleport p (landing nb), st\<lparr>hasTeleportedUp := True\<rparr>,
                  calls @ [(playerId p, landing nb)]))"
  by (simp add: handleUpTeleport_def)

lemma getPlayerState_upd:
  "(fst (getPlayerState playerStates pid))(pid \<mapsto> st) = playerStates(pid \<mapsto> st)"
  by (simp add: getPlayerState_def split: option.splits)

lemma blockTypeStep_unfold:
  "blockTypeStep cfg dimension dimensionName allowedBlock (p, playerStates, calls) =
     (if matching dimension allowedBlock (checkPosAt (floorPos (location p)) (- 1)) then
        (let (p1, st1, calls1) =
               handleDownTeleport cfg p dimension (floorPos (location p)) allowedBlock
                 (observedState playerStates p) calls;
             (p2, st2, calls2) =
               handleUpTeleport cfg p1 dimension (floorPos (location p)) allowedBlock st1
                 dimensionName calls1
         in (p2, playerStates(playerId p \<mapsto> st2), calls2))
      else (p, playerStates(playerId p \<mapsto> observedState playerStates p), calls))"
proof -
  obtain ps1 st0 where g: "getPlayerState playerStates (playerId p) = (ps1, st0)"
    by (cases "getPlayerState playerStates (playerId p)")
  have u: "\<And>st. ps1(playerId p \<mapsto> st) = playerStates(playerId p \<mapsto> st)"
    using getPlayerState_upd [of playerStates "playerId p"] g by simp
  show ?thesis
    by (simp add: blockTypeStep_def g u observedState_def matching_def checkPosAt_def Let_def
             split: option.splits prod.splits)
qed

lemma blockTypeStep_cases:
  fixes cfg dimension dimensionName allowedBlock p playerStates calls
  defines "st \<equiv> observedState playerStates p"
  defines "r \<equiv> blockTypeStep cfg dimension dimensionName allowedBlock (p, playerStates, calls)"
  obtains (idle) "r = (p, playerStates(playerId p \<mapsto> st), calls)"
  | (down) nb where "isSneaking p" "\<not> isJumping p" "\<not> hasTeleportedDown st"
      "matching dimension allowedBlock (checkPosAt (floorPos (location p)) (- 1))"
      "scanResult (downLoop cfg dimension (floorPos (location p)) allowedBlock (- 2) initScan)
         = Some nb"
      "r = (teleport p (landing nb), playerStates(playerId p \<mapsto> st\<lparr>hasTeleportedDown := True\<rparr>),
            calls @ [(playerId p, landing nb)])"
  | (up) nb where "isJumping p" "\<not> isSneaking p" "\<not> hasTeleportedUp st"
      "matching dimension allowedBlock (checkPosAt (floorPos (location p)) (- 1))"
      "scanResult (upLoop cfg dimension (floorPos (location p)) allowedBlock dimensionName 1
         initScan) = Some nb"
      "r = (teleport p (landing nb), playerStates(playerId p \<mapsto> st\<lparr>hasTeleportedUp := True\<rparr>),
            calls @ [(playerId p, landing nb)])"
proof (cases "matching dimension allowedBlock (checkPosAt (floorPos (location p)) (- 1))")
  case False
  then have "r = (p, playerStates(playerId p \<mapsto> st), calls)"
    by (simp add: r_def st_def blockTypeStep_unfold)
  then show ?thesis by (rule idle)
next
  case m: True
  show ?thesis
  proof (cases "isSneaking p \<and> \<not> isJumping p \<and> \<not> hasTeleportedDown st")
    case dn: True
    show ?thesis
    proof (cases "scanResult (downLoop cfg dimension (floorPos (location p)) allowedBlock (- 2)
                    initScan)")
      case None
      with m dn have "r = (p, playerStates(playerId p \<mapsto> st), calls)"
        by (simp add: r_def blockTypeStep_unfold st_def [symmetric] handleDown_open
              handleUp_gated)
      then show ?thesis by (rule idle)
    next
      case (Some nb)
      with m dn have "r = (teleport p (landing nb),
          playerStates(playerId p \<mapsto> st\<lparr>hasTeleportedDown := True\<rparr>),
          calls @ [(playerId p, landing nb)])"
        by (simp add: r_def blockTypeStep_unfold st_def [symmetric] handleDown_open
              handleUp_gated teleport_def)
      with dn m Some show ?thesis by (intro down [of nb]) auto
    qed
  next
    case nd: False
    then have hd: "handleDownTeleport cfg p dimension (floorPos (location p)) allowedBlock st
        calls = (p, st, calls)"
      by (intro handleDown_gated) auto
    show ?thesis
    proof (cases "isJumping p \<and> \<not> isSneaking p \<and> \<not> hasTeleportedUp st")
      case False
      then have "handleUpTeleport cfg p dimension (floorPos (location p)) allowedBlock st
          dimensionName calls = (p, st, calls)"
        by (intro handleUp_gated) auto
      with m hd have "r = (p, playerStates(playerId p \<mapsto> st), calls)"
        by (simp add: r_def blockTypeStep_unfold st_def [symmetric])
      then show ?thesis by (rule idle)
    next
      case u: True
      show ?thesis
      proof (cases "scanResult (upLoop cfg dimension (floorPos (location p)) allowedBlock
                      dimensionName 1 initScan)")
        case None
        with m hd u have "r = (p, playerStates(playerId p \<mapsto> st), calls)"
          by (simp add: r_def blockTypeStep_unfold st_def [symmetric] handleUp_open)
        then show ?thesis by (rule idle)
      next
        case (Some nb)
        with m hd u have "r = (teleport p (landing nb),
            playerStates(playerId p \<mapsto> st\<lparr>hasTeleportedUp := True\<rparr>),
            calls @ [(playerId p, landing nb)])"
          by (simp add: r_def blockTypeStep_unfold st_def [symmetric] handleUp_open)
        with u m Some show ?thesis by (intro up [of nb]) auto
      qed
    qed
  qed
qed

text \<open>A step changes nothing of a player handle but, possibly, its location.\<close>

lemma blockTypeStep_handle:
  "playerId (fst (blockTypeStep cfg dimension dimensionName allowedBlock (p, acc))) = playerId p \<and>
   isSneaking (fst (blockTypeStep cfg dimension dimensionName allowedBlock (p, acc))) = isSneaking p \<and>
   isJumping (fst (blockTypeStep cfg dimension dimensionName allowedBlock (p, acc))) = isJumping p"
proof -
  obtain playerStates calls where acc: "acc = (playerStates, calls)" by (cases acc)
  show ?thesis
    unfolding acc
    by (cases rule: blockTypeStep_cases
          [of cfg dimension dimensionName allowedBlock p playerStates calls])
       (simp_all add: teleport_def)
qed

lemma blockTypesLoop_invariant:
  assumes step: "\<And>allowedBlock q acc. playerId q = playerId p \<Longrightarrow> isSneaking q = isSneaking p \<Longrightarrow>
      isJumping q = isJumping p \<Longrightarrow> I acc \<Longrightarrow>
      I (snd (blockTypeStep cfg dimension dimensionName allowedBlock (q, acc)))"
    and "playerId q = playerId p" "isSneaking q = isSneaking p" "isJumping q = isJumping p"
    and "I acc"
  shows "I (snd (blockTypesLoop cfg dimension dimensionName bs (q, acc)))"
  using assms(2-)
proof (induction bs arbitrary: q acc)
  case Nil
  then show ?case by simp
next
  case (Cons b bs)
  obtain q' acc' where r: "blockTypeStep cfg dimension dimensionName b (q, acc) = (q', acc')"
    by (cases "blockTypeStep cfg dimension dimensionName b (q, acc)")
  have h: "playerId q' = playerId p" "isSneaking q' = isSneaking p" "isJumping q' = isJumping p"
    using blockTypeStep_handle [of cfg dimension dimensionName b q acc] r Cons.prems by simp_all
  have "I acc'" using step [of q acc b] Cons.prems r by simp
  with h show ?case using Cons.IH [of q' acc'] r by simp
qed

lemma playersLoop_invariant:
  assumes step: "\<And>p allowedBlock q acc. p \<in> set ps \<Longrightarrow> playerId q = playerId p \<Longrightarrow>
      isSneaking q = isSneaking p \<Longrightarrow> isJumping q = isJumping p \<Longrightarrow> I acc \<Longrightarrow>
      I (snd (blockTypeStep cfg dimension dimensionName allowedBlock (q, acc)))"
    and "I acc"
  shows "I (playersLoop cfg dimension dimensionName ps acc)"
  using assms
proof (induction ps arbitrary: acc)
  case Nil
  then show ?case by simp
next
  case (Cons p ps)
  have "I (snd (blockTypesLoop cfg dimension dimensionName allowedBlocks (p, acc)))"
  proof (rule blockTypesLoop_invariant [where p = p and I = I])
    fix allowedBlock and q :: player and acc'
    assume "playerId q = playerId p" "isSneaking q = isSneaking p"
      "isJumping q = isJumping p" "I acc'"
    then show "I (snd (blockTypeStep cfg dimension dimensionName allowedBlock (q, acc')))"
      by (intro Cons.prems(1) [of p]) simp_all
  qed (simp_all add: Cons.prems(2))
  moreover have "\<And>p' allowedBlock q acc'. p' \<in> set ps \<Longrightarrow> playerId q = playerId p' \<Longrightarrow>
      isSneaking q = isSneaking p' \<Longrightarrow> isJumping q = isJumping p' \<Longrightarrow> I acc' \<Longrightarrow>
      I (snd (blockTypeStep cfg dimension dimensionName allowedBlock (q, acc')))"
    by (rule Cons.prems(1)) simp_all
  ultimately show ?case using Cons.IH by simp
qed

lemma dimensionsLoop_invariant:
  assumes step: "\<And>dimensionName p allowedBlock q acc. dimensionName \<in> set ds \<Longrightarrow>
      p \<in> set (getPlayers (w dimensionName)) \<Longrightarrow> playerId q = playerId p \<Longrightarrow>
      isSneaking q = isSneaking p \<Longrightarrow> isJumping q = isJumping p \<Longrightarrow> I acc \<Longrightarrow>
      I (snd (blockTypeStep cfg (w dimensionName) dimensionName allowedBlock (q, acc)))"
    and "I acc"
  shows "I (dimensionsLoop cfg w ds acc)"
  using assms
proof (induction ds arbitrary: acc)
  case Nil
  then show ?case by simp
next
  case (Cons d ds)
  have "I (playersLoop cfg (w d) d (getPlayers (w d)) acc)"
  proof (rule playersLoop_invariant [where I = I])
    fix p allowedBlock and q :: player and acc'
    assume "p \<in> set (getPlayers (w d))" "playerId q = playerId p"
      "isSneaking q = isSneaking p" "isJumping q = isJumping p" "I acc'"
    then show "I (snd (blockTypeStep cfg (w d) d allowedBlock (q, acc')))"
      by (intro Cons.prems(1) [of d p]) simp_all
  qed (rule Cons.prems(2))
  moreover have "\<And>dimensionName p allowedBlock q acc'. dimensionName \<in> set ds \<Longrightarrow>
      p \<in> set (getPlayers (w dimensionName)) \<Longrightarrow> playerId q = playerId p \<Longrightarrow>
      isSneaking q = isSneaking p \<Longrightarrow> isJumping q = isJumping p \<Longrightarrow> I acc' \<Longrightarrow>
      I (snd (blockTypeStep cfg (w dimensionName) dimensionName allowedBlock (q, acc')))"
    by (rule Cons.prems(1)) simp_all
  ultimately show ?case using Cons.IH by simp
qed

lemma step_calls_other:
  "playerId q \<noteq> i \<Longrightarrow>
   filter (\<lambda>c. fst c = i) (snd (snd (blockTypeStep cfg dimension dimensionName allowedBlock
      (q, playerStates, calls)))) = filter (\<lambda>c. fst c = i) calls \<and>
   fst (snd (blockTypeStep cfg dimension dimensionName allowedBlock (q, playerStates, calls))) i
     = playerStates i"
  by (cases rule: blockTypeStep_cases
        [of cfg dimension dimensionName allowedBlock q playerStates calls]) simp_all

lemma observed_down_kept:
  "playerStates (playerId q) = Some st \<Longrightarrow> hasTeleportedDown st \<Longrightarrow> isSneaking q \<Longrightarrow>
   hasTeleportedDown (observedState playerStates q)"
  by (simp add: observedState_def getPlayerState_def resetPlayerState_def Let_def)

lemma observed_up_kept:
  "playerStates (playerId q) = Some st \<Longrightarrow> hasTeleportedUp st \<Longrightarrow> isJumping q \<Longrightarrow>
   hasTeleportedUp (observedState playerStates q)"
  by (simp add: observedState_def getPlayerState_def resetPlayerState_def Let_def)

lemma step_both_inputs:
  "isSneaking q \<Longrightarrow> isJumping q \<Longrightarrow>
   snd (snd (blockTypeStep cfg dimension dimensionName allowedBlock (q, playerStates, calls)))
     = calls"
  by (cases rule: blockTypeStep_cases
        [of cfg dimension dimensionName allowedBlock q playerStates calls]) simp_all

lemma step_down_held:
  assumes "playerStates (playerId q) = Some st" "hasTeleportedDown st" "isSneaking q"
  shows "snd (snd (blockTypeStep cfg dimension dimensionName allowedBlock
            (q, playerStates, calls))) = calls \<and>
         (\<exists>st'. fst (snd (blockTypeStep cfg dimension dimensionName allowedBlock
            (q, playerStates, calls))) (playerId q) = Some st' \<and> hasTeleportedDown st')"
  using observed_down_kept [of playerStates q st] assms
  by (cases rule: blockTypeStep_cases
        [of cfg dimension dimensionName allowedBlock q playerStates calls]) simp_all

lemma step_up_held:
  assumes "playerStates (playerId q) = Some st" "hasTeleportedUp st" "isJumping q"
  shows "snd (snd (blockTypeStep cfg dimension dimensionName allowedBlock
            (q, playerStates, calls))) = calls \<and>
         (\<exists>st'. fst (snd (blockTypeStep cfg dimension dimensionName allowedBlock
            (q, playerStates, calls))) (playerId q) = Some st' \<and> hasTeleportedUp st')"
  using observed_up_kept [of playerStates q st] assms
  by (cases rule: blockTypeStep_cases
        [of cfg dimension dimensionName allowedBlock q playerStates calls]) simp_all

lemma tick_invariant:
  assumes "\<And>dimensionName p allowedBlock q acc. dimensionName \<in> set (dimensions cfg) \<Longrightarrow>
      p \<in> set (getPlayers (w dimensionName)) \<Longrightarrow> playerId q = playerId p \<Longrightarrow>
      isSneaking q = isSneaking p \<Longrightarrow> isJumping q = isJumping p \<Longrightarrow> I acc \<Longrightarrow>
      I (snd (blockTypeStep cfg (w dimensionName) dimensionName allowedBlock (q, acc)))"
    and "I (playerStates, [])"
  shows "I (tick cfg w playerStates)"
  unfolding tick_def by (rule dimensionsLoop_invariant [where I = I]) (use assms in simp_all)

lemma tick_both_inputs:
  assumes "\<forall>dn \<in> set (dimensions cfg). \<forall>q \<in> set (getPlayers (w dn)).
             playerId q = i \<longrightarrow> isSneaking q \<and> isJumping q"
  shows "filter (\<lambda>c. fst c = i) (snd (tick cfg w playerStates)) = []"
proof (rule tick_invariant [where I = "\<lambda>acc. filter (\<lambda>c. fst c = i) (snd acc) = []"])
  fix dimensionName p allowedBlock and q :: player
    and acc :: "(string \<rightharpoonup> playerState) \<times> teleportLog"
  assume h: "dimensionName \<in> set (dimensions cfg)" "p \<in> set (getPlayers (w dimensionName))"
    "playerId q = playerId p" "isSneaking q = isSneaking p" "isJumping q = isJumping p"
    "filter (\<lambda>c. fst c = i) (snd acc) = []"
  obtain playerStates' calls where acc: "acc = (playerStates', calls)" by (cases acc)
  show "filter (\<lambda>c. fst c = i)
          (snd (snd (blockTypeStep cfg (w dimensionName) dimensionName allowedBlock (q, acc)))) = []"
  proof (cases "playerId q = i")
    case False
    then show ?thesis using step_calls_other [of q i] h(6) acc by simp
  next
    case True
    with h assms have "isSneaking q" "isJumping q" by auto
    then show ?thesis using step_both_inputs [of q] h(6) acc by simp
  qed
qed simp

lemma tick_down_held:
  assumes sn: "\<forall>dn \<in> set (dimensions cfg). \<forall>q \<in> set (getPlayers (w dn)).
             playerId q = i \<longrightarrow> isSneaking q"
    and st: "playerStates i = Some st" "hasTeleportedDown st"
  shows "filter (\<lambda>c. fst c = i) (snd (tick cfg w playerStates)) = [] \<and>
         (\<exists>st'. fst (tick cfg w playerStates) i = Some st' \<and> hasTeleportedDown st')"
proof (rule tick_invariant [where I = "\<lambda>acc. filter (\<lambda>c. fst c = i) (snd acc) = [] \<and>
         (\<exists>st'. fst acc i = Some st' \<and> hasTeleportedDown st')"])
  fix dimensionName p allowedBlock and q :: player
    and acc :: "(string \<rightharpoonup> playerState) \<times> teleportLog"
  assume h: "dimensionName \<in> set (dimensions cfg)" "p \<in> set (getPlayers (w dimensionName))"
    "playerId q = playerId p" "isSneaking q = isSneaking p" "isJumping q = isJumping p"
    and inv: "filter (\<lambda>c. fst c = i) (snd acc) = [] \<and>
         (\<exists>st'. fst acc i = Some st' \<and> hasTeleportedDown st')"
  obtain playerStates' calls where acc: "acc = (playerStates', calls)" by (cases acc)
  from inv acc obtain st' where st': "playerStates' i = Some st'" "hasTeleportedDown st'"
    by auto
  let ?r = "blockTypeStep cfg (w dimensionName) dimensionName allowedBlock (q, playerStates', calls)"
  show "filter (\<lambda>c. fst c = i)
          (snd (snd (blockTypeStep cfg (w dimensionName) dimensionName allowedBlock (q, acc)))) = [] \<and>
        (\<exists>st'. fst (snd (blockTypeStep cfg (w dimensionName) dimensionName allowedBlock (q, acc))) i
           = Some st' \<and> hasTeleportedDown st')"
  proof (cases "playerId q = i")
    case False
    then show ?thesis
      using step_calls_other [of q i cfg "w dimensionName" dimensionName allowedBlock
          playerStates' calls] inv acc by simp
  next
    case True
    with h sn have "isSneaking q" by auto
    then show ?thesis
      using step_down_held [of playerStates' q st' cfg "w dimensionName" dimensionName
          allowedBlock calls] st' True inv acc by simp
  qed
qed (use st in simp)

lemma tick_up_held:
  assumes jp: "\<forall>dn \<in> set (dimensions cfg). \<forall>q \<in> set (getPlayers (w dn)).
             playerId q = i \<longrightarrow> isJumping q"
    and st: "playerStates i = Some st" "hasTeleportedUp st"
  shows "filter (\<lambda>c. fst c = i) (snd (tick cfg w playerStates)) = [] \<and>
         (\<exists>st'. fst (tick cfg w playerStates) i = Some st' \<and> hasTeleportedUp st')"
proof (rule tick_invariant [where I = "\<lambda>acc. filter (\<lambda>c. fst c = i) (snd acc) = [] \<and>
         (\<exists>st'. fst acc i = Some st' \<and> hasTeleportedUp st')"])
  fix dimensionName p allowedBlock and q :: player
    and acc :: "(string \<rightharpoonup> playerState) \<times> teleportLog"
  assume h: "dimensionName \<in> set (dimensions cfg)" "p \<in> set (getPlayers (w dimensionName))"
    "playerId q = playerId p" "isSneaking q = isSneaking p" "isJumping q = isJumping p"
    and inv: "filter (\<lambda>c. fst c = i) (snd acc) = [] \<and>
         (\<exists>st'. fst acc i = Some st' \<and> hasTeleportedUp st')"
  obtain playerStates' calls where acc: "acc = (playerStates', calls)" by (cases acc)
  from inv acc obtain st' where st': "playerStates' i = Some st'" "hasTeleportedUp st'"
    by auto
  show "filter (\<lambda>c. fst c = i)
          (snd (snd (blockTypeStep cfg (w dimensionName) dimensionName allowedBlock (q, acc)))) = [] \<and>
        (\<exists>st'. fst (snd (blockTypeStep cfg (w dimensionName) dimensionName allowedBlock (q, acc))) i
           = Some st' \<and> hasTeleportedUp st')"
  proof (cases "playerId q = i")
    case False
    then show ?thesis
      using step_calls_other [of q i cfg "w dimensionName" dimensionName allowedBlock
          playerStates' calls] inv acc by simp
  next
    case True
    with h jp have "isJumping q" by auto
    then show ?thesis
      using step_up_held [of playerStates' q st' cfg "w dimensionName" dimensionName
          allowedBlock calls] st' True inv acc by simp
  qed
qed (use st in simp)

lemma ticks_down_held:
  "\<forall>w \<in> set ws. \<forall>dn \<in> set (dimensions cfg). \<forall>q \<in> set (getPlayers (w dn)).
      playerId q = i \<longrightarrow> isSneaking q \<Longrightarrow>
   playerStates i = Some st \<Longrightarrow> hasTeleportedDown st \<Longrightarrow>
   filter (\<lambda>c. fst c = i) (snd (ticks cfg ws playerStates)) = [] \<and>
   (\<exists>st'. fst (ticks cfg ws playerStates) i = Some st' \<and> hasTeleportedDown st')"
proof (induction ws arbitrary: playerStates st)
  case Nil
  then show ?case by simp
next
  case (Cons w ws)
  have t: "filter (\<lambda>c. fst c = i) (snd (tick cfg w playerStates)) = [] \<and>
         (\<exists>st'. fst (tick cfg w playerStates) i = Some st' \<and> hasTeleportedDown st')"
    using Cons.prems by (intro tick_down_held [of cfg w i playerStates st]) simp_all
  then obtain st1 where st1: "fst (tick cfg w playerStates) i = Some st1" "hasTeleportedDown st1"
    by blast
  have "filter (\<lambda>c. fst c = i) (snd (ticks cfg ws (fst (tick cfg w playerStates)))) = [] \<and>
   (\<exists>st'. fst (ticks cfg ws (fst (tick cfg w playerStates))) i = Some st' \<and> hasTeleportedDown st')"
    using Cons.prems(1) st1 by (intro Cons.IH [of _ st1]) simp_all
  with t show ?case by (simp add: split_beta Let_def)
qed

lemma ticks_up_held:
  "\<forall>w \<in> set ws. \<forall>dn \<in> set (dimensions cfg). \<forall>q \<in> set (getPlayers (w dn)).
      playerId q = i \<longrightarrow> isJumping q \<Longrightarrow>
   playerStates i = Some st \<Longrightarrow> hasTeleportedUp st \<Longrightarrow>
   filter (\<lambda>c. fst c = i) (snd (ticks cfg ws playerStates)) = [] \<and>
   (\<exists>st'. fst (ticks cfg ws playerStates) i = Some st' \<and> hasTeleportedUp st')"
proof (induction ws arbitrary: playerStates st)
  case Nil
  then show ?case by simp
next
  case (Cons w ws)
  have t: "filter (\<lambda>c. fst c = i) (snd (tick cfg w playerStates)) = [] \<and>
         (\<exists>st'. fst (tick cfg w playerStates) i = Some st' \<and> hasTeleportedUp st')"
    using Cons.prems by (intro tick_up_held [of cfg w i playerStates st]) simp_all
  then obtain st1 where st1: "fst (tick cfg w playerStates) i = Some st1" "hasTeleportedUp st1"
    by blast
  have "filter (\<lambda>c. fst c = i) (snd (ticks cfg ws (fst (tick cfg w playerStates)))) = [] \<and>
   (\<exists>st'. fst (ticks cfg ws (fst (tick cfg w playerStates))) i = Some st' \<and> hasTeleportedUp st')"
    using Cons.prems(1) st1 by (intro Cons.IH [of _ st1]) simp_all
  with t show ?case by (simp add: split_beta Let_def)
qed

lemma step_firedOnce:
  assumes inv: "firedOnce i sn jp (playerStates, calls)"
    and q: "playerId q = i \<longrightarrow> isSneaking q = sn \<and> isJumping q = jp"
  shows "firedOnce i sn jp
           (snd (blockTypeStep cfg dimension dimensionName allowedBlock (q, playerStates, calls)))"
proof (cases "playerId q = i")
  case False
  then show ?thesis
    using step_calls_other [of q i cfg dimension dimensionName allowedBlock playerStates calls] inv
    by (simp add: firedOnce_def)
next
  case True
  with q have qs: "isSneaking q = sn" "isJumping q = jp" by simp_all
  show ?thesis
  proof (cases "filter (\<lambda>c. fst c = i) calls = []")
    case True
    show ?thesis
      by (cases rule: blockTypeStep_cases
            [of cfg dimension dimensionName allowedBlock q playerStates calls])
         (use True qs \<open>playerId q = i\<close> in \<open>auto simp: firedOnce_def\<close>)
  next
    case False
    with inv consider
      (d) st where "sn" "\<not> jp" "playerStates i = Some st" "hasTeleportedDown st"
        "length (filter (\<lambda>c. fst c = i) calls) = 1"
      | (u) st where "jp" "\<not> sn" "playerStates i = Some st" "hasTeleportedUp st"
        "length (filter (\<lambda>c. fst c = i) calls) = 1"
      by (auto simp: firedOnce_def)
    then show ?thesis
    proof cases
      case d
      then show ?thesis
        using step_down_held [of playerStates q st cfg dimension dimensionName allowedBlock calls]
          qs \<open>playerId q = i\<close> by (auto simp: firedOnce_def)
    next
      case u
      then show ?thesis
        using step_up_held [of playerStates q st cfg dimension dimensionName allowedBlock calls]
          qs \<open>playerId q = i\<close> by (auto simp: firedOnce_def)
    qed
  qed
qed

lemma tick_firedOnce:
  assumes "\<forall>dn \<in> set (dimensions cfg). \<forall>q \<in> set (getPlayers (w dn)).
             playerId q = i \<longrightarrow> isSneaking q = sn \<and> isJumping q = jp"
  shows "firedOnce i sn jp (tick cfg w playerStates)"
proof (rule tick_invariant [where I = "firedOnce i sn jp"])
  fix dimensionName p allowedBlock and q :: player
    and acc :: "(string \<rightharpoonup> playerState) \<times> teleportLog"
  assume h: "dimensionName \<in> set (dimensions cfg)" "p \<in> set (getPlayers (w dimensionName))"
    "playerId q = playerId p" "isSneaking q = isSneaking p" "isJumping q = isJumping p"
    "firedOnce i sn jp acc"
  obtain playerStates' calls where acc: "acc = (playerStates', calls)" by (cases acc)
  have "playerId q = i \<longrightarrow> isSneaking q = sn \<and> isJumping q = jp"
    using h assms by auto
  then show "firedOnce i sn jp
      (snd (blockTypeStep cfg (w dimensionName) dimensionName allowedBlock (q, acc)))"
    using h(6) unfolding acc by (intro step_firedOnce) simp_all
qed (simp add: firedOnce_def)

lemma firedOnce_length:
  "firedOnce i sn jp acc \<Longrightarrow> length (filter (\<lambda>c. fst c = i) (snd acc)) \<le> 1"
  by (auto simp: firedOnce_def)


section \<open>The scenarios\<close>

lemma upStop_mono: "upStop cfg dimensionName a \<Longrightarrow> a \<le> b \<Longrightarrow> upStop cfg dimensionName b"
  by (auto simp: upStop_def)

lemma shaftDown_matching:
  "matching shaftDown b cp =
     (vx cp = 0 \<and> vz cp = 0 \<and> vy cp \<in> {9, 5, 2} \<and> b = ''minecraft:diamond_block'')"
  by (auto simp: shaftDown_def column_matching)

lemma shaftUp_matching:
  "matching shaftUp b cp =
     (vx cp = 0 \<and> vz cp = 0 \<and> vy cp \<in> {329, 338} \<and> b = ''minecraft:diamond_block'')"
  by (auto simp: shaftUp_def column_matching)

lemma scanA:
  "scanResult (downLoop config shaftDown \<lparr>vx = 0, vy = 10, vz = 0\<rparr>
     ''minecraft:diamond_block'' (- 2) initScan) = Some \<lparr>vx = 0, vy = 5, vz = 0\<rparr>"
  using downFirst_nearest [of "- 5" "- 2" config "\<lparr>vx = 0, vy = 10, vz = 0\<rparr>" shaftDown
      "''minecraft:diamond_block''"]
  by (simp add: scanDown_first config_def shaftDown_matching checkPosAt_def)

lemma scanB:
  "scanResult (downLoop (config\<lparr>miniLimit := 6\<rparr>) shaftDown \<lparr>vx = 0, vy = 10, vz = 0\<rparr>
     ''minecraft:diamond_block'' (- 2) initScan) = None"
proof -
  have "downFirst (config\<lparr>miniLimit := 6\<rparr>) shaftDown \<lparr>vx = 0, vy = 10, vz = 0\<rparr>
     ''minecraft:diamond_block'' (- 2) = None"
    by (simp add: downFirst_skip downFirst_floor config_def shaftDown_matching checkPosAt_def)
  then show ?thesis by (simp add: scanDown_first)
qed

lemma scanC:
  "scanResult (upLoop config shaftUp \<lparr>vx = 0, vy = 330, vz = 0\<rparr>
     ''minecraft:diamond_block'' ''minecraft:overworld'' 1 initScan) =
   Some \<lparr>vx = 0, vy = 338, vz = 0\<rparr>"
  using upFirst_nearest [of 1 8 config "''minecraft:overworld''" "\<lparr>vx = 0, vy = 330, vz = 0\<rparr>"
      shaftUp "''minecraft:diamond_block''"]
  by (simp add: scanUp_first config_def shaftUp_matching checkPosAt_def upStop_def)

lemma scanD:
  "scanResult (upLoop config shaftUp \<lparr>vx = 0, vy = 330, vz = 0\<rparr>
     ''minecraft:diamond_block'' ''minecraft:nether'' 1 initScan) = None"
proof -
  have "upFirst config shaftUp \<lparr>vx = 0, vy = 330, vz = 0\<rparr>
     ''minecraft:diamond_block'' ''minecraft:nether'' 1 = None"
    by (rule upFirst_ceiling) (simp add: upStop_def config_def)
  then show ?thesis by (simp add: scanUp_first)
qed

lemma config_dimensions:
  "dimensions config = [''minecraft:nether'', ''minecraft:overworld'', ''minecraft:the_end'']"
  "dimensions (config\<lparr>miniLimit := m\<rparr>) =
     [''minecraft:nether'', ''minecraft:overworld'', ''minecraft:the_end'']"
  by (simp_all add: config_def)

lemmas scenario_simps =
  tick_def config_dimensions onlyIn_def emptyDimension_def allowedBlocks_def
  blockTypeStep_unfold shaftDown_matching shaftUp_matching sneaker_def jumper_def floorPos_def
  checkPosAt_def observedState_def getPlayerState_def resetPlayerState_def
  handleDownTeleport_def handleUpTeleport_def teleport_def landing_def

lemma tickA:
  "snd (tick config (onlyIn ''minecraft:overworld'' shaftDown) Map.empty) =
     [(''steve'', \<lparr>vx = 0.5, vy = 6, vz = 0.5\<rparr>)]"
proof -
  have pl: "getPlayers shaftDown = [sneaker]" by (simp add: shaftDown_def)
  show ?thesis by (simp add: scenario_simps pl scanA)
qed

lemma tickB:
  "snd (tick (config\<lparr>miniLimit := 6\<rparr>) (onlyIn ''minecraft:overworld'' shaftDown) Map.empty) = []"
proof -
  have pl: "getPlayers shaftDown = [sneaker]" by (simp add: shaftDown_def)
  show ?thesis by (simp add: scenario_simps pl scanB)
qed

lemma tickC:
  "snd (tick config (onlyIn ''minecraft:overworld'' shaftUp) Map.empty) =
     [(''steve'', \<lparr>vx = 0.5, vy = 339, vz = 0.5\<rparr>)]"
proof -
  have pl: "getPlayers shaftUp = [jumper]" by (simp add: shaftUp_def)
  show ?thesis by (simp add: scenario_simps pl scanC)
qed

lemma tickD:
  "snd (tick config (onlyIn ''minecraft:nether'' shaftUp) Map.empty) = []"
proof -
  have pl: "getPlayers shaftUp = [jumper]" by (simp add: shaftUp_def)
  show ?thesis by (simp add: scenario_simps pl scanD)
qed

section \<open>The claims\<close>

text \<open>
  C1. Nearest match. In either direction, when two blocks of the target type lie on the
  scanned axis at distances \<open>d1 < d2\<close>, both inside the step budget and the height
  bound, the scan returns the block at distance \<open>d1\<close>, the nearer of the two. The
  configuration is the one whose matching blocks are those two; the theorem asks for less,
  only that no offset the scan visits before \<open>d1\<close> holds a matching block (the downward
  scan starts at distance 2, the upward scan at distance 1). Scenario A: the sneaking player
  at \<open>(0,10,0)\<close> on a diamond block at \<open>(0,9,0)\<close>, with diamond blocks at \<open>(0,5,0)\<close> and
  \<open>(0,2,0)\<close>, is teleported to \<open>(0.5,6,0.5)\<close>, and that is the tick's only teleport.
\<close>

theorem nearest_match:
  "(2 \<le> d1 \<and> d1 < d2 \<and> d2 \<le> maximum cfg \<and> miniLimit cfg < vy pos - d2 \<and>
    matching dimension allowedBlock (checkPosAt pos (- d1)) \<and>
    matching dimension allowedBlock (checkPosAt pos (- d2)) \<and>
    (\<forall>d. 2 \<le> d \<and> d < d1 \<longrightarrow> \<not> matching dimension allowedBlock (checkPosAt pos (- d)))
    \<longrightarrow> scanResult (downLoop cfg dimension pos allowedBlock (- 2) initScan) =
          Some (checkPosAt pos (- d1))) \<and>
   (1 \<le> d1 \<and> d1 < d2 \<and> d2 \<le> maximum cfg \<and> \<not> upStop cfg dimensionName (vy pos + d2) \<and>
    matching dimension allowedBlock (checkPosAt pos d1) \<and>
    matching dimension allowedBlock (checkPosAt pos d2) \<and>
    (\<forall>d. 1 \<le> d \<and> d < d1 \<longrightarrow> \<not> matching dimension allowedBlock (checkPosAt pos d))
    \<longrightarrow> scanResult (upLoop cfg dimension pos allowedBlock dimensionName 1 initScan) =
          Some (checkPosAt pos d1)) \<and>
   snd (tick config (onlyIn ''minecraft:overworld'' shaftDown) Map.empty) =
     [(''steve'', \<lparr>vx = 0.5, vy = 6, vz = 0.5\<rparr>)]"
proof (intro conjI impI)
  assume h: "2 \<le> d1 \<and> d1 < d2 \<and> d2 \<le> maximum cfg \<and> miniLimit cfg < vy pos - d2 \<and>
    matching dimension allowedBlock (checkPosAt pos (- d1)) \<and>
    matching dimension allowedBlock (checkPosAt pos (- d2)) \<and>
    (\<forall>d. 2 \<le> d \<and> d < d1 \<longrightarrow> \<not> matching dimension allowedBlock (checkPosAt pos (- d)))"
  then have r: "2 \<le> d1" "d1 < d2" "d2 \<le> maximum cfg" "miniLimit cfg < vy pos - d2"
    and m: "matching dimension allowedBlock (checkPosAt pos (- d1))"
    and n: "\<And>d. 2 \<le> d \<Longrightarrow> d < d1 \<Longrightarrow> \<not> matching dimension allowedBlock (checkPosAt pos (- d))"
    by blast+
  have none: "\<forall>u. - d1 < u \<and> u \<le> - 2 \<longrightarrow> \<not> matching dimension allowedBlock (checkPosAt pos u)"
  proof (intro allI impI)
    fix u :: int
    assume "- d1 < u \<and> u \<le> - 2"
    then have "2 \<le> - u" "- u < d1" by linarith+
    then have "\<not> matching dimension allowedBlock (checkPosAt pos (- (- u)))" by (rule n)
    then show "\<not> matching dimension allowedBlock (checkPosAt pos u)" by simp
  qed
  have "downFirst cfg dimension pos allowedBlock (- 2) = Some (checkPosAt pos (- d1))"
  proof (rule downFirst_nearest [OF _ _ _ m none])
    show "- d1 \<le> - 2" "- maximum cfg \<le> - d1" "miniLimit cfg < vy pos + - d1"
      using r by linarith+
  qed
  then show "scanResult (downLoop cfg dimension pos allowedBlock (- 2) initScan) =
      Some (checkPosAt pos (- d1))"
    by (simp only: scanDown_first)
next
  assume h: "1 \<le> d1 \<and> d1 < d2 \<and> d2 \<le> maximum cfg \<and> \<not> upStop cfg dimensionName (vy pos + d2) \<and>
    matching dimension allowedBlock (checkPosAt pos d1) \<and>
    matching dimension allowedBlock (checkPosAt pos d2) \<and>
    (\<forall>d. 1 \<le> d \<and> d < d1 \<longrightarrow> \<not> matching dimension allowedBlock (checkPosAt pos d))"
  then have r: "1 \<le> d1" "d1 < d2" "d2 \<le> maximum cfg"
    and ns: "\<not> upStop cfg dimensionName (vy pos + d2)"
    and m: "matching dimension allowedBlock (checkPosAt pos d1)"
    and n: "\<forall>d. 1 \<le> d \<and> d < d1 \<longrightarrow> \<not> matching dimension allowedBlock (checkPosAt pos d)"
    by blast+
  have below: "\<forall>u. 1 \<le> u \<and> u \<le> d1 \<longrightarrow> \<not> upStop cfg dimensionName (vy pos + u)"
  proof (intro allI impI notI)
    fix u :: int
    assume u: "1 \<le> u \<and> u \<le> d1" and st: "upStop cfg dimensionName (vy pos + u)"
    have "vy pos + u \<le> vy pos + d2" using u r by linarith
    with st have "upStop cfg dimensionName (vy pos + d2)" by (rule upStop_mono)
    with ns show False by simp
  qed
  have "upFirst cfg dimension pos allowedBlock dimensionName 1 = Some (checkPosAt pos d1)"
  proof (rule upFirst_nearest [OF _ _ below m n])
    show "1 \<le> d1" "d1 \<le> maximum cfg" using r by linarith+
  qed
  then show "scanResult (upLoop cfg dimension pos allowedBlock dimensionName 1 initScan) =
      Some (checkPosAt pos d1)"
    by (simp only: scanUp_first)
next
  show "snd (tick config (onlyIn ''minecraft:overworld'' shaftDown) Map.empty) =
     [(''steve'', \<lparr>vx = 0.5, vy = 6, vz = 0.5\<rparr>)]"
    by (rule tickA)
qed

theorem nearest_match_witness:
  "scanResult (downLoop config shaftDown \<lparr>vx = 0, vy = 10, vz = 0\<rparr>
     ''minecraft:diamond_block'' (- 2) initScan) = Some \<lparr>vx = 0, vy = 5, vz = 0\<rparr> \<and>
   scanResult (upLoop config shaftDown \<lparr>vx = 0, vy = 0, vz = 0\<rparr>
     ''minecraft:diamond_block'' ''minecraft:overworld'' 1 initScan) =
     Some \<lparr>vx = 0, vy = 2, vz = 0\<rparr>"
proof
  show "scanResult (downLoop config shaftDown \<lparr>vx = 0, vy = 10, vz = 0\<rparr>
     ''minecraft:diamond_block'' (- 2) initScan) = Some \<lparr>vx = 0, vy = 5, vz = 0\<rparr>"
    using nearest_match [of 5 8 config "\<lparr>vx = 0, vy = 10, vz = 0\<rparr>" shaftDown
        "''minecraft:diamond_block''", THEN conjunct1]
    by (simp add: config_def shaftDown_matching checkPosAt_def)
  show "scanResult (upLoop config shaftDown \<lparr>vx = 0, vy = 0, vz = 0\<rparr>
     ''minecraft:diamond_block'' ''minecraft:overworld'' 1 initScan) =
     Some \<lparr>vx = 0, vy = 2, vz = 0\<rparr>"
    using nearest_match [of 2 5 config "\<lparr>vx = 0, vy = 0, vz = 0\<rparr>" shaftDown
        "''minecraft:diamond_block''" "''minecraft:overworld''", THEN conjunct2, THEN conjunct1]
    by (simp add: config_def shaftDown_matching checkPosAt_def upStop_def)
qed

text \<open>
  C2, as amended. When the block one unit below the player's floored position is absent
  or of another type than the allowed block type at hand, the loop body skips that type:
  it runs no scan and invokes no teleport, and the player handle is unchanged. The store
  is changed only by what the body does before it looks at the block: the player's entry
  is created if it was absent, and the reset rule is applied to it.
\<close>

theorem unsupported_type_is_skipped:
  "(getBlock dimension \<lparr>vx = \<lfloor>vx (location p)\<rfloor>, vy = \<lfloor>vy (location p)\<rfloor> - 1,
                         vz = \<lfloor>vz (location p)\<rfloor>\<rparr> = None \<or>
    (\<exists>b. getBlock dimension \<lparr>vx = \<lfloor>vx (location p)\<rfloor>, vy = \<lfloor>vy (location p)\<rfloor> - 1,
                              vz = \<lfloor>vz (location p)\<rfloor>\<rparr> = Some b \<and>
         typeId b \<noteq> allowedBlock))
   \<longrightarrow> blockTypeStep cfg dimension dimensionName allowedBlock (p, playerStates, calls) =
         (p,
          playerStates(playerId p \<mapsto>
            resetPlayerState
              (case playerStates (playerId p) of
                 None \<Rightarrow> \<lparr>hasTeleportedDown = False, hasTeleportedUp = False\<rparr>
               | Some st \<Rightarrow> st) p),
          calls)"
proof
  assume h: "getBlock dimension \<lparr>vx = \<lfloor>vx (location p)\<rfloor>, vy = \<lfloor>vy (location p)\<rfloor> - 1,
                         vz = \<lfloor>vz (location p)\<rfloor>\<rparr> = None \<or>
    (\<exists>b. getBlock dimension \<lparr>vx = \<lfloor>vx (location p)\<rfloor>, vy = \<lfloor>vy (location p)\<rfloor> - 1,
                              vz = \<lfloor>vz (location p)\<rfloor>\<rparr> = Some b \<and>
         typeId b \<noteq> allowedBlock)"
  then have "\<not> matching dimension allowedBlock (checkPosAt (floorPos (location p)) (- 1))"
    by (auto simp: matching_def checkPosAt_def floorPos_def)
  moreover have "observedState playerStates p =
      resetPlayerState
        (case playerStates (playerId p) of
           None \<Rightarrow> \<lparr>hasTeleportedDown = False, hasTeleportedUp = False\<rparr>
         | Some st \<Rightarrow> st) p"
    by (simp add: observedState_def getPlayerState_def split: option.splits)
  ultimately show "blockTypeStep cfg dimension dimensionName allowedBlock
      (p, playerStates, calls) =
         (p,
          playerStates(playerId p \<mapsto>
            resetPlayerState
              (case playerStates (playerId p) of
                 None \<Rightarrow> \<lparr>hasTeleportedDown = False, hasTeleportedUp = False\<rparr>
               | Some st \<Rightarrow> st) p),
          calls)"
    by (simp add: blockTypeStep_unfold)
qed

theorem unsupported_type_is_skipped_witness:
  "blockTypeStep config shaftDown ''minecraft:overworld'' ''minecraft:gold_block''
     (sneaker, Map.empty, []) =
   (sneaker, [''steve'' \<mapsto> \<lparr>hasTeleportedDown = False, hasTeleportedUp = False\<rparr>], []) \<and>
   blockTypeStep config emptyDimension ''minecraft:overworld'' ''minecraft:diamond_block''
     (sneaker, [''steve'' \<mapsto> \<lparr>hasTeleportedDown = True, hasTeleportedUp = False\<rparr>], []) =
   (sneaker, [''steve'' \<mapsto> \<lparr>hasTeleportedDown = True, hasTeleportedUp = False\<rparr>], [])"
  using unsupported_type_is_skipped [of shaftDown sneaker "''minecraft:gold_block''" config
      "''minecraft:overworld''" Map.empty "[]"]
    unsupported_type_is_skipped [of emptyDimension sneaker "''minecraft:diamond_block''" config
      "''minecraft:overworld''"
      "[''steve'' \<mapsto> \<lparr>hasTeleportedDown = True, hasTeleportedUp = False\<rparr>]" "[]"]
  by (simp add: shaftDown_def column_def emptyDimension_def sneaker_def resetPlayerState_def)

text \<open>
  C2, as stated, fails. A player who has teleported down, has released the sneak input and
  stands on no block at all (the block below is absent) is skipped for the diamond block
  type, and yet that iteration clears the stored \<open>hasTeleportedDown\<close>; and for a player
  not seen before, the skipped iteration creates the store entry.
\<close>

theorem skip_leaves_state_counterexample:
  "getBlock emptyDimension \<lparr>vx = 0, vy = 9, vz = 0\<rparr> = None \<and>
   fst (snd (blockTypeStep config emptyDimension ''minecraft:overworld''
     ''minecraft:diamond_block''
     (sneaker\<lparr>isSneaking := False\<rparr>,
      [''steve'' \<mapsto> \<lparr>hasTeleportedDown = True, hasTeleportedUp = False\<rparr>], []))) ''steve'' =
     Some \<lparr>hasTeleportedDown = False, hasTeleportedUp = False\<rparr> \<and>
   fst (snd (blockTypeStep config emptyDimension ''minecraft:overworld''
     ''minecraft:diamond_block'' (sneaker\<lparr>isSneaking := False\<rparr>, Map.empty, []))) ''steve'' =
     Some \<lparr>hasTeleportedDown = False, hasTeleportedUp = False\<rparr>"
  by (simp add: blockTypeStep_unfold matching_def emptyDimension_def observedState_def
        getPlayerState_def resetPlayerState_def sneaker_def)

text \<open>
  C3. Cooldown. A handler that invokes a teleport returns the state object with its own
  flag set. From a store in which a player's \<open>hasTeleportedDown\<close> is set, any number of
  further ticks, over any worlds in which that player is sneaking whenever present, invoke
  no teleport of that player, and the flag is still set afterwards. The reset rule is
  what clears it: after \<open>resetPlayerState\<close> the flag is set exactly when it was set before
  and the player is sneaking. The same holds for \<open>hasTeleportedUp\<close> and jumping.
\<close>

theorem cooldown_until_release:
  "((\<forall>w \<in> set ws. \<forall>dn \<in> set (dimensions cfg). \<forall>q \<in> set (getPlayers (w dn)).
        playerId q = i \<longrightarrow> isSneaking q) \<and>
    playerStates i = Some st \<and> hasTeleportedDown st
    \<longrightarrow> filter (\<lambda>c. fst c = i) (snd (ticks cfg ws playerStates)) = [] \<and>
        (\<exists>st'. fst (ticks cfg ws playerStates) i = Some st' \<and> hasTeleportedDown st')) \<and>
   ((\<forall>w \<in> set ws. \<forall>dn \<in> set (dimensions cfg). \<forall>q \<in> set (getPlayers (w dn)).
        playerId q = i \<longrightarrow> isJumping q) \<and>
    playerStates i = Some st \<and> hasTeleportedUp st
    \<longrightarrow> filter (\<lambda>c. fst c = i) (snd (ticks cfg ws playerStates)) = [] \<and>
        (\<exists>st'. fst (ticks cfg ws playerStates) i = Some st' \<and> hasTeleportedUp st')) \<and>
   (handleDownTeleport cfg p dimension pos allowedBlock st calls = (p', st', calls') \<and>
    calls' \<noteq> calls \<longrightarrow> hasTeleportedDown st') \<and>
   (handleUpTeleport cfg p dimension pos allowedBlock st dimensionName calls = (p', st', calls') \<and>
    calls' \<noteq> calls \<longrightarrow> hasTeleportedUp st') \<and>
   hasTeleportedDown (resetPlayerState st p) = (hasTeleportedDown st \<and> isSneaking p) \<and>
   hasTeleportedUp (resetPlayerState st p) = (hasTeleportedUp st \<and> isJumping p)"
proof (intro conjI impI)
  assume "(\<forall>w \<in> set ws. \<forall>dn \<in> set (dimensions cfg). \<forall>q \<in> set (getPlayers (w dn)).
        playerId q = i \<longrightarrow> isSneaking q) \<and> playerStates i = Some st \<and> hasTeleportedDown st"
  then have "filter (\<lambda>c. fst c = i) (snd (ticks cfg ws playerStates)) = [] \<and>
        (\<exists>st'. fst (ticks cfg ws playerStates) i = Some st' \<and> hasTeleportedDown st')"
    by (intro ticks_down_held [of ws cfg i playerStates st]) simp_all
  then show "filter (\<lambda>c. fst c = i) (snd (ticks cfg ws playerStates)) = []"
    and "\<exists>st'. fst (ticks cfg ws playerStates) i = Some st' \<and> hasTeleportedDown st'"
    by simp_all
next
  assume "(\<forall>w \<in> set ws. \<forall>dn \<in> set (dimensions cfg). \<forall>q \<in> set (getPlayers (w dn)).
        playerId q = i \<longrightarrow> isJumping q) \<and> playerStates i = Some st \<and> hasTeleportedUp st"
  then have "filter (\<lambda>c. fst c = i) (snd (ticks cfg ws playerStates)) = [] \<and>
        (\<exists>st'. fst (ticks cfg ws playerStates) i = Some st' \<and> hasTeleportedUp st')"
    by (intro ticks_up_held [of ws cfg i playerStates st]) simp_all
  then show "filter (\<lambda>c. fst c = i) (snd (ticks cfg ws playerStates)) = []"
    and "\<exists>st'. fst (ticks cfg ws playerStates) i = Some st' \<and> hasTeleportedUp st'"
    by simp_all
next
  assume "handleDownTeleport cfg p dimension pos allowedBlock st calls = (p', st', calls') \<and>
    calls' \<noteq> calls"
  then show "hasTeleportedDown st'"
    by (auto simp: handleDownTeleport_def split: if_splits option.splits)
next
  assume "handleUpTeleport cfg p dimension pos allowedBlock st dimensionName calls =
    (p', st', calls') \<and> calls' \<noteq> calls"
  then show "hasTeleportedUp st'"
    by (auto simp: handleUpTeleport_def split: if_splits option.splits)
next
  show "hasTeleportedDown (resetPlayerState st p) = (hasTeleportedDown st \<and> isSneaking p)"
    by (simp add: resetPlayerState_def Let_def)
  show "hasTeleportedUp (resetPlayerState st p) = (hasTeleportedUp st \<and> isJumping p)"
    by (simp add: resetPlayerState_def Let_def)
qed

theorem cooldown_until_release_witness:
  "filter (\<lambda>c. fst c = ''steve'')
     (snd (ticks config
        [onlyIn ''minecraft:overworld'' shaftDown, onlyIn ''minecraft:the_end'' shaftDown]
        [''steve'' \<mapsto> \<lparr>hasTeleportedDown = True, hasTeleportedUp = False\<rparr>])) = [] \<and>
   (\<exists>st'. fst (ticks config
        [onlyIn ''minecraft:overworld'' shaftDown, onlyIn ''minecraft:the_end'' shaftDown]
        [''steve'' \<mapsto> \<lparr>hasTeleportedDown = True, hasTeleportedUp = False\<rparr>]) ''steve'' = Some st' \<and>
      hasTeleportedDown st') \<and>
   filter (\<lambda>c. fst c = ''steve'')
     (snd (ticks config
        [onlyIn ''minecraft:overworld'' shaftUp, onlyIn ''minecraft:overworld'' shaftUp]
        [''steve'' \<mapsto> \<lparr>hasTeleportedDown = False, hasTeleportedUp = True\<rparr>])) = [] \<and>
   (\<exists>st'. fst (ticks config
        [onlyIn ''minecraft:overworld'' shaftUp, onlyIn ''minecraft:overworld'' shaftUp]
        [''steve'' \<mapsto> \<lparr>hasTeleportedDown = False, hasTeleportedUp = True\<rparr>]) ''steve'' = Some st' \<and>
      hasTeleportedUp st') \<and>
   hasTeleportedDown (fst (snd (handleDownTeleport config sneaker shaftDown
     \<lparr>vx = 0, vy = 10, vz = 0\<rparr> ''minecraft:diamond_block''
     \<lparr>hasTeleportedDown = False, hasTeleportedUp = False\<rparr> []))) \<and>
   hasTeleportedUp (fst (snd (handleUpTeleport config jumper shaftUp
     \<lparr>vx = 0, vy = 330, vz = 0\<rparr> ''minecraft:diamond_block''
     \<lparr>hasTeleportedDown = False, hasTeleportedUp = False\<rparr> ''minecraft:overworld'' [])))"
proof -
  note t = cooldown_until_release
  have d: "filter (\<lambda>c. fst c = ''steve'')
     (snd (ticks config
        [onlyIn ''minecraft:overworld'' shaftDown, onlyIn ''minecraft:the_end'' shaftDown]
        [''steve'' \<mapsto> \<lparr>hasTeleportedDown = True, hasTeleportedUp = False\<rparr>])) = [] \<and>
   (\<exists>st'. fst (ticks config
        [onlyIn ''minecraft:overworld'' shaftDown, onlyIn ''minecraft:the_end'' shaftDown]
        [''steve'' \<mapsto> \<lparr>hasTeleportedDown = True, hasTeleportedUp = False\<rparr>]) ''steve'' = Some st' \<and>
      hasTeleportedDown st')"
    using t [where cfg = config and i = "''steve''" and
        ws = "[onlyIn ''minecraft:overworld'' shaftDown, onlyIn ''minecraft:the_end'' shaftDown]" and
        playerStates = "[''steve'' \<mapsto> \<lparr>hasTeleportedDown = True, hasTeleportedUp = False\<rparr>]" and
        st = "\<lparr>hasTeleportedDown = True, hasTeleportedUp = False\<rparr>", THEN conjunct1]
    by (simp add: config_dimensions onlyIn_def emptyDimension_def shaftDown_def sneaker_def)
  have u: "filter (\<lambda>c. fst c = ''steve'')
     (snd (ticks config
        [onlyIn ''minecraft:overworld'' shaftUp, onlyIn ''minecraft:overworld'' shaftUp]
        [''steve'' \<mapsto> \<lparr>hasTeleportedDown = False, hasTeleportedUp = True\<rparr>])) = [] \<and>
   (\<exists>st'. fst (ticks config
        [onlyIn ''minecraft:overworld'' shaftUp, onlyIn ''minecraft:overworld'' shaftUp]
        [''steve'' \<mapsto> \<lparr>hasTeleportedDown = False, hasTeleportedUp = True\<rparr>]) ''steve'' = Some st' \<and>
      hasTeleportedUp st')"
    using t [where cfg = config and i = "''steve''" and
        ws = "[onlyIn ''minecraft:overworld'' shaftUp, onlyIn ''minecraft:overworld'' shaftUp]" and
        playerStates = "[''steve'' \<mapsto> \<lparr>hasTeleportedDown = False, hasTeleportedUp = True\<rparr>]" and
        st = "\<lparr>hasTeleportedDown = False, hasTeleportedUp = True\<rparr>",
        THEN conjunct2, THEN conjunct1]
    by (simp add: config_dimensions onlyIn_def emptyDimension_def shaftUp_def jumper_def)
  have hd: "handleDownTeleport config sneaker shaftDown
     \<lparr>vx = 0, vy = 10, vz = 0\<rparr> ''minecraft:diamond_block''
     \<lparr>hasTeleportedDown = False, hasTeleportedUp = False\<rparr> [] =
     (teleport sneaker (landing \<lparr>vx = 0, vy = 5, vz = 0\<rparr>),
      \<lparr>hasTeleportedDown = True, hasTeleportedUp = False\<rparr>,
      [(''steve'', landing \<lparr>vx = 0, vy = 5, vz = 0\<rparr>)])"
    by (simp add: handleDownTeleport_def scanA sneaker_def)
  have hu: "handleUpTeleport config jumper shaftUp
     \<lparr>vx = 0, vy = 330, vz = 0\<rparr> ''minecraft:diamond_block''
     \<lparr>hasTeleportedDown = False, hasTeleportedUp = False\<rparr> ''minecraft:overworld'' [] =
     (teleport jumper (landing \<lparr>vx = 0, vy = 338, vz = 0\<rparr>),
      \<lparr>hasTeleportedDown = False, hasTeleportedUp = True\<rparr>,
      [(''steve'', landing \<lparr>vx = 0, vy = 338, vz = 0\<rparr>)])"
    by (simp add: handleUpTeleport_def scanC jumper_def)
  have fd: "hasTeleportedDown (fst (snd (handleDownTeleport config sneaker shaftDown
     \<lparr>vx = 0, vy = 10, vz = 0\<rparr> ''minecraft:diamond_block''
     \<lparr>hasTeleportedDown = False, hasTeleportedUp = False\<rparr> [])))"
    using t [where cfg = config and p = sneaker and dimension = shaftDown and
        pos = "\<lparr>vx = 0, vy = 10, vz = 0\<rparr>" and allowedBlock = "''minecraft:diamond_block''" and
        st = "\<lparr>hasTeleportedDown = False, hasTeleportedUp = False\<rparr>" and calls = "[]" and
        p' = "teleport sneaker (landing \<lparr>vx = 0, vy = 5, vz = 0\<rparr>)" and
        st' = "\<lparr>hasTeleportedDown = True, hasTeleportedUp = False\<rparr>" and
        calls' = "[(''steve'', landing \<lparr>vx = 0, vy = 5, vz = 0\<rparr>)]",
        THEN conjunct2, THEN conjunct2, THEN conjunct1]
    by (simp add: hd)
  have fu: "hasTeleportedUp (fst (snd (handleUpTeleport config jumper shaftUp
     \<lparr>vx = 0, vy = 330, vz = 0\<rparr> ''minecraft:diamond_block''
     \<lparr>hasTeleportedDown = False, hasTeleportedUp = False\<rparr> ''minecraft:overworld'' [])))"
    using t [where cfg = config and p = jumper and dimension = shaftUp and
        pos = "\<lparr>vx = 0, vy = 330, vz = 0\<rparr>" and allowedBlock = "''minecraft:diamond_block''" and
        dimensionName = "''minecraft:overworld''" and
        st = "\<lparr>hasTeleportedDown = False, hasTeleportedUp = False\<rparr>" and calls = "[]" and
        p' = "teleport jumper (landing \<lparr>vx = 0, vy = 338, vz = 0\<rparr>)" and
        st' = "\<lparr>hasTeleportedDown = False, hasTeleportedUp = True\<rparr>" and
        calls' = "[(''steve'', landing \<lparr>vx = 0, vy = 338, vz = 0\<rparr>)]",
        THEN conjunct2, THEN conjunct2, THEN conjunct2, THEN conjunct1]
    by (simp add: hu)
  from d u fd fu show ?thesis by (simp only: simp_thms)
qed

text \<open>
  C4. Each gate requires the opposite input to be absent: the downward handler does
  nothing for a jumping player and the upward handler nothing for a sneaking one, whatever
  blocks exist. So in a tick where a player is both sneaking and jumping, no teleport of
  that player is invoked.
\<close>

theorem both_inputs_fire_nothing:
  "(isJumping p \<longrightarrow>
      handleDownTeleport cfg p dimension pos allowedBlock st calls = (p, st, calls)) \<and>
   (isSneaking p \<longrightarrow>
      handleUpTeleport cfg p dimension pos allowedBlock st dimensionName calls =
        (p, st, calls)) \<and>
   ((\<forall>dn \<in> set (dimensions cfg). \<forall>q \<in> set (getPlayers (w dn)).
        playerId q = i \<longrightarrow> isSneaking q \<and> isJumping q)
    \<longrightarrow> filter (\<lambda>c. fst c = i) (snd (tick cfg w playerStates)) = [])"
  by (simp add: handleDown_gated handleUp_gated tick_both_inputs)

theorem both_inputs_fire_nothing_witness:
  "handleDownTeleport config (sneaker\<lparr>isJumping := True\<rparr>) shaftDown
     \<lparr>vx = 0, vy = 10, vz = 0\<rparr> ''minecraft:diamond_block''
     \<lparr>hasTeleportedDown = False, hasTeleportedUp = False\<rparr> [] =
     (sneaker\<lparr>isJumping := True\<rparr>, \<lparr>hasTeleportedDown = False, hasTeleportedUp = False\<rparr>, []) \<and>
   handleUpTeleport config (sneaker\<lparr>isJumping := True\<rparr>) shaftDown
     \<lparr>vx = 0, vy = 10, vz = 0\<rparr> ''minecraft:diamond_block''
     \<lparr>hasTeleportedDown = False, hasTeleportedUp = False\<rparr> ''minecraft:overworld'' [] =
     (sneaker\<lparr>isJumping := True\<rparr>, \<lparr>hasTeleportedDown = False, hasTeleportedUp = False\<rparr>, []) \<and>
   filter (\<lambda>c. fst c = ''steve'')
     (snd (tick config
        (onlyIn ''minecraft:overworld'' (shaftDown\<lparr>getPlayers := [sneaker\<lparr>isJumping := True\<rparr>]\<rparr>))
        Map.empty)) = []"
proof (intro conjI)
  note t = both_inputs_fire_nothing
  show "handleDownTeleport config (sneaker\<lparr>isJumping := True\<rparr>) shaftDown
     \<lparr>vx = 0, vy = 10, vz = 0\<rparr> ''minecraft:diamond_block''
     \<lparr>hasTeleportedDown = False, hasTeleportedUp = False\<rparr> [] =
     (sneaker\<lparr>isJumping := True\<rparr>, \<lparr>hasTeleportedDown = False, hasTeleportedUp = False\<rparr>, [])"
    using t [of "sneaker\<lparr>isJumping := True\<rparr>", THEN conjunct1] by simp
  show "handleUpTeleport config (sneaker\<lparr>isJumping := True\<rparr>) shaftDown
     \<lparr>vx = 0, vy = 10, vz = 0\<rparr> ''minecraft:diamond_block''
     \<lparr>hasTeleportedDown = False, hasTeleportedUp = False\<rparr> ''minecraft:overworld'' [] =
     (sneaker\<lparr>isJumping := True\<rparr>, \<lparr>hasTeleportedDown = False, hasTeleportedUp = False\<rparr>, [])"
    using t [of "sneaker\<lparr>isJumping := True\<rparr>", THEN conjunct2, THEN conjunct1]
    by (simp add: sneaker_def)
  show "filter (\<lambda>c. fst c = ''steve'')
     (snd (tick config
        (onlyIn ''minecraft:overworld'' (shaftDown\<lparr>getPlayers := [sneaker\<lparr>isJumping := True\<rparr>]\<rparr>))
        Map.empty)) = []"
    using t [where cfg = config and i = "''steve''" and playerStates = Map.empty and
        w = "onlyIn ''minecraft:overworld''
               (shaftDown\<lparr>getPlayers := [sneaker\<lparr>isJumping := True\<rparr>]\<rparr>)",
        THEN conjunct2, THEN conjunct2]
    by (simp add: config_dimensions onlyIn_def emptyDimension_def sneaker_def)
qed

text \<open>
  C5. Lower bound. A downward scan stops at the first checked height that is at or below
  the lower bound, whatever the world holds there (the block is not looked up), and a
  position it returns lies strictly above the bound: a matching block at a height
  \<open>y \<le> lowerBound\<close> is never returned. Scenario B: with the lower bound set to 6, the
  player of scenario A at height 10, with matching blocks at heights 5 and 2 only, is not
  teleported.
\<close>

theorem lower_bound_respected:
  "(vy pos + y \<le> miniLimit cfg \<longrightarrow> downLoop cfg dimension pos allowedBlock y s = s) \<and>
   (scanResult (downLoop cfg dimension pos allowedBlock (- 2) initScan) = Some nb
    \<longrightarrow> miniLimit cfg < vy nb) \<and>
   snd (tick (config\<lparr>miniLimit := 6\<rparr>) (onlyIn ''minecraft:overworld'' shaftDown) Map.empty)
     = []"
proof (intro conjI impI)
  assume "vy pos + y \<le> miniLimit cfg"
  then show "downLoop cfg dimension pos allowedBlock y s = s" by (rule downLoop_floor)
next
  assume "scanResult (downLoop cfg dimension pos allowedBlock (- 2) initScan) = Some nb"
  then have "downFirst cfg dimension pos allowedBlock (- 2) = Some nb"
    by (simp only: scanDown_first)
  then obtain t where "miniLimit cfg < vy pos + t" "nb = checkPosAt pos t"
    using downFirst_sound by blast
  then show "miniLimit cfg < vy nb" by (simp add: checkPosAt_def)
next
  show "snd (tick (config\<lparr>miniLimit := 6\<rparr>) (onlyIn ''minecraft:overworld'' shaftDown)
      Map.empty) = []"
    by (rule tickB)
qed

theorem lower_bound_respected_witness:
  "downLoop (config\<lparr>miniLimit := 6\<rparr>) shaftDown \<lparr>vx = 0, vy = 10, vz = 0\<rparr>
     ''minecraft:diamond_block'' (- 5) initScan = initScan \<and>
   miniLimit config < vy \<lparr>vx = 0, vy = 5 :: int, vz = 0\<rparr>"
  using lower_bound_respected [of "\<lparr>vx = 0, vy = 10, vz = 0\<rparr>" "- 5" "config\<lparr>miniLimit := 6\<rparr>"
      shaftDown "''minecraft:diamond_block''" initScan, THEN conjunct1]
    lower_bound_respected [of "\<lparr>vx = 0, vy = 10, vz = 0\<rparr>" _ config
      shaftDown "''minecraft:diamond_block''" _ "\<lparr>vx = 0, vy = 5, vz = 0\<rparr>",
      THEN conjunct2, THEN conjunct1]
  by (simp add: scanA)

text \<open>
  C6. Upper bound. In the overworld an upward scan stops at the first checked height at
  or above \<open>maxLimitOW\<close> and returns only positions strictly below it; in the nether and
  in the end it does so with \<open>maxLimitETC\<close>. The configured bounds are 340 and 255.
  Scenarios C and D: a jumping player at \<open>(0,330,0)\<close>, on a diamond block, with a diamond
  block at \<open>(0,338,0)\<close>, is teleported (to \<open>(0.5,339,0.5)\<close>) in the overworld and is not
  teleported in the nether.
\<close>

theorem upper_bound_respected:
  "(maxLimitOW cfg \<le> vy pos + y \<longrightarrow>
      upLoop cfg dimension pos allowedBlock ''minecraft:overworld'' y s = s) \<and>
   (maxLimitETC cfg \<le> vy pos + y \<longrightarrow>
      upLoop cfg dimension pos allowedBlock ''minecraft:nether'' y s = s \<and>
      upLoop cfg dimension pos allowedBlock ''minecraft:the_end'' y s = s) \<and>
   (scanResult (upLoop cfg dimension pos allowedBlock ''minecraft:overworld'' 1 initScan) = Some nb
    \<longrightarrow> vy nb < maxLimitOW cfg) \<and>
   (scanResult (upLoop cfg dimension pos allowedBlock ''minecraft:nether'' 1 initScan) = Some nb
    \<longrightarrow> vy nb < maxLimitETC cfg) \<and>
   (scanResult (upLoop cfg dimension pos allowedBlock ''minecraft:the_end'' 1 initScan) = Some nb
    \<longrightarrow> vy nb < maxLimitETC cfg) \<and>
   maxLimitOW config = 340 \<and> maxLimitETC config = 255 \<and>
   snd (tick config (onlyIn ''minecraft:overworld'' shaftUp) Map.empty) =
     [(''steve'', \<lparr>vx = 0.5, vy = 339, vz = 0.5\<rparr>)] \<and>
   snd (tick config (onlyIn ''minecraft:nether'' shaftUp) Map.empty) = []"
proof -
  have stop: "upStop cfg dimensionName (vy pos + y) \<Longrightarrow>
      upLoop cfg dimension pos allowedBlock dimensionName y s = s" for dimensionName
    by (rule upLoop_ceiling)
  have res: "scanResult (upLoop cfg dimension pos allowedBlock dimensionName 1 initScan) = Some nb
      \<Longrightarrow> \<not> upStop cfg dimensionName (vy nb)" for dimensionName
  proof -
    assume "scanResult (upLoop cfg dimension pos allowedBlock dimensionName 1 initScan) = Some nb"
    then have "upFirst cfg dimension pos allowedBlock dimensionName 1 = Some nb"
      by (simp only: scanUp_first)
    then obtain t where "\<not> upStop cfg dimensionName (vy pos + t)" "nb = checkPosAt pos t"
      using upFirst_sound by blast
    then show ?thesis by (simp add: checkPosAt_def)
  qed
  have bounds: "maxLimitOW config = 340 \<and> maxLimitETC config = 255"
    by (simp add: config_def)
  have general:
    "(maxLimitOW cfg \<le> vy pos + y \<longrightarrow>
        upLoop cfg dimension pos allowedBlock ''minecraft:overworld'' y s = s) \<and>
     (maxLimitETC cfg \<le> vy pos + y \<longrightarrow>
        upLoop cfg dimension pos allowedBlock ''minecraft:nether'' y s = s \<and>
        upLoop cfg dimension pos allowedBlock ''minecraft:the_end'' y s = s) \<and>
     (scanResult (upLoop cfg dimension pos allowedBlock ''minecraft:overworld'' 1 initScan)
        = Some nb \<longrightarrow> vy nb < maxLimitOW cfg) \<and>
     (scanResult (upLoop cfg dimension pos allowedBlock ''minecraft:nether'' 1 initScan)
        = Some nb \<longrightarrow> vy nb < maxLimitETC cfg) \<and>
     (scanResult (upLoop cfg dimension pos allowedBlock ''minecraft:the_end'' 1 initScan)
        = Some nb \<longrightarrow> vy nb < maxLimitETC cfg)"
    using stop [of "''minecraft:overworld''"] stop [of "''minecraft:nether''"]
      stop [of "''minecraft:the_end''"] res [of "''minecraft:overworld''"]
      res [of "''minecraft:nether''"] res [of "''minecraft:the_end''"]
    by (simp add: upStop_def not_le)
  show ?thesis
    using general bounds tickC tickD by (simp only: simp_thms)
qed

theorem upper_bound_respected_witness:
  "upLoop config shaftUp \<lparr>vx = 0, vy = 330, vz = 0\<rparr> ''minecraft:diamond_block''
     ''minecraft:overworld'' 10 initScan = initScan \<and>
   upLoop config shaftUp \<lparr>vx = 0, vy = 330, vz = 0\<rparr> ''minecraft:diamond_block''
     ''minecraft:nether'' 1 initScan = initScan \<and>
   upLoop config shaftUp \<lparr>vx = 0, vy = 330, vz = 0\<rparr> ''minecraft:diamond_block''
     ''minecraft:the_end'' 1 initScan = initScan \<and>
   vy \<lparr>vx = 0, vy = 338 :: int, vz = 0\<rparr> < maxLimitOW config \<and>
   vy \<lparr>vx = 0, vy = 2 :: int, vz = 0\<rparr> < maxLimitETC config"
proof -
  note t = upper_bound_respected [of config "\<lparr>vx = 0, vy = 330, vz = 0\<rparr>" _ shaftUp
      "''minecraft:diamond_block''" initScan]
  have n: "scanResult (upLoop config shaftDown \<lparr>vx = 0, vy = 0, vz = 0\<rparr>
      ''minecraft:diamond_block'' ''minecraft:nether'' 1 initScan) = Some \<lparr>vx = 0, vy = 2, vz = 0\<rparr>"
    using upFirst_nearest [of 1 2 config "''minecraft:nether''" "\<lparr>vx = 0, vy = 0, vz = 0\<rparr>"
        shaftDown "''minecraft:diamond_block''"]
    by (simp add: scanUp_first config_def shaftDown_matching checkPosAt_def upStop_def)
  show ?thesis
    using t [of 10, THEN conjunct1] t [of 1, THEN conjunct2, THEN conjunct1]
      t [of _ "\<lparr>vx = 0, vy = 338, vz = 0\<rparr>", THEN conjunct2, THEN conjunct2, THEN conjunct1]
      upper_bound_respected [of config "\<lparr>vx = 0, vy = 0, vz = 0\<rparr>" _ shaftDown
        "''minecraft:diamond_block''" _ "\<lparr>vx = 0, vy = 2, vz = 0\<rparr>",
        THEN conjunct2, THEN conjunct2, THEN conjunct2, THEN conjunct1]
    by (simp add: scanC n config_def)
qed

text \<open>
  C7. When a handler's gate is open and its scan finds a block, the handler teleports the
  player to \<open>(blockX + 0.5, blockY + 1, blockZ + 0.5)\<close>: that position is the argument of
  the one call it adds to the log and the player's location afterwards, and the state
  object comes back with the handler's own cooldown flag set (\<open>hasTeleportedDown\<close> for
  the downward handler, \<open>hasTeleportedUp\<close> for the upward one) and the other flag as it was.
\<close>

theorem dispatch_lands_on_found_block:
  "(isSneaking p \<and> \<not> isJumping p \<and> \<not> hasTeleportedDown st \<and>
    scanResult (downLoop cfg dimension pos allowedBlock (- 2) initScan) = Some nb
    \<longrightarrow> handleDownTeleport cfg p dimension pos allowedBlock st calls =
          (p\<lparr>location := \<lparr>vx = of_int (vx nb) + 0.5, vy = of_int (vy nb) + 1,
                            vz = of_int (vz nb) + 0.5\<rparr>\<rparr>,
           st\<lparr>hasTeleportedDown := True\<rparr>,
           calls @ [(playerId p, \<lparr>vx = of_int (vx nb) + 0.5, vy = of_int (vy nb) + 1,
                                  vz = of_int (vz nb) + 0.5\<rparr>)])) \<and>
   (isJumping p \<and> \<not> isSneaking p \<and> \<not> hasTeleportedUp st \<and>
    scanResult (upLoop cfg dimension pos allowedBlock dimensionName 1 initScan) = Some nb
    \<longrightarrow> handleUpTeleport cfg p dimension pos allowedBlock st dimensionName calls =
          (p\<lparr>location := \<lparr>vx = of_int (vx nb) + 0.5, vy = of_int (vy nb) + 1,
                            vz = of_int (vz nb) + 0.5\<rparr>\<rparr>,
           st\<lparr>hasTeleportedUp := True\<rparr>,
           calls @ [(playerId p, \<lparr>vx = of_int (vx nb) + 0.5, vy = of_int (vy nb) + 1,
                                  vz = of_int (vz nb) + 0.5\<rparr>)]))"
  by (simp add: handleDownTeleport_def handleUpTeleport_def teleport_def landing_def)

theorem dispatch_lands_on_found_block_witness:
  "handleDownTeleport config sneaker shaftDown \<lparr>vx = 0, vy = 10, vz = 0\<rparr>
     ''minecraft:diamond_block'' \<lparr>hasTeleportedDown = False, hasTeleportedUp = False\<rparr> [] =
     (sneaker\<lparr>location := \<lparr>vx = 0.5, vy = 6, vz = 0.5\<rparr>\<rparr>,
      \<lparr>hasTeleportedDown = True, hasTeleportedUp = False\<rparr>,
      [(''steve'', \<lparr>vx = 0.5, vy = 6, vz = 0.5\<rparr>)]) \<and>
   handleUpTeleport config jumper shaftUp \<lparr>vx = 0, vy = 330, vz = 0\<rparr>
     ''minecraft:diamond_block'' \<lparr>hasTeleportedDown = False, hasTeleportedUp = False\<rparr>
     ''minecraft:overworld'' [] =
     (jumper\<lparr>location := \<lparr>vx = 0.5, vy = 339, vz = 0.5\<rparr>\<rparr>,
      \<lparr>hasTeleportedDown = False, hasTeleportedUp = True\<rparr>,
      [(''steve'', \<lparr>vx = 0.5, vy = 339, vz = 0.5\<rparr>)])"
  using dispatch_lands_on_found_block [of sneaker
      "\<lparr>hasTeleportedDown = False, hasTeleportedUp = False\<rparr>" config shaftDown
      "\<lparr>vx = 0, vy = 10, vz = 0\<rparr>" "''minecraft:diamond_block''"
      "\<lparr>vx = 0, vy = 5, vz = 0\<rparr>" "[]", THEN conjunct1]
    dispatch_lands_on_found_block [of jumper
      "\<lparr>hasTeleportedDown = False, hasTeleportedUp = False\<rparr>" config shaftUp
      "\<lparr>vx = 0, vy = 330, vz = 0\<rparr>" "''minecraft:diamond_block''"
      "\<lparr>vx = 0, vy = 338, vz = 0\<rparr>" "[]" "''minecraft:overworld''", THEN conjunct2]
  by (simp add: scanA scanC sneaker_def jumper_def)

text \<open>
  C8. At a scan step inside the step budget and the height bound, an absent block and a
  block of another type are handled alike: the scan goes on to the next offset with its
  locals unchanged. The model has no error value because the script raises none. When a
  scan ends without a match, the handler returns the player, the state object and the
  teleport log as it received them: no teleport, no change of a cooldown flag.
\<close>

theorem non_match_continues_exhaustion_is_silent:
  "(- maximum cfg \<le> y \<and> miniLimit cfg < vy pos + y \<and>
    (getBlock dimension (checkPosAt pos y) = None \<or>
     (\<exists>b. getBlock dimension (checkPosAt pos y) = Some b \<and> typeId b \<noteq> allowedBlock))
    \<longrightarrow> downLoop cfg dimension pos allowedBlock y s =
          downLoop cfg dimension pos allowedBlock (y - 1) s) \<and>
   (y \<le> maximum cfg \<and> \<not> upStop cfg dimensionName (vy pos + y) \<and>
    (getBlock dimension (checkPosAt pos y) = None \<or>
     (\<exists>b. getBlock dimension (checkPosAt pos y) = Some b \<and> typeId b \<noteq> allowedBlock))
    \<longrightarrow> upLoop cfg dimension pos allowedBlock dimensionName y s =
          upLoop cfg dimension pos allowedBlock dimensionName (y + 1) s) \<and>
   (scanResult (downLoop cfg dimension pos allowedBlock (- 2) initScan) = None
    \<longrightarrow> handleDownTeleport cfg p dimension pos allowedBlock st calls = (p, st, calls)) \<and>
   (scanResult (upLoop cfg dimension pos allowedBlock dimensionName 1 initScan) = None
    \<longrightarrow> handleUpTeleport cfg p dimension pos allowedBlock st dimensionName calls =
          (p, st, calls))"
proof (intro conjI impI)
  assume h: "- maximum cfg \<le> y \<and> miniLimit cfg < vy pos + y \<and>
    (getBlock dimension (checkPosAt pos y) = None \<or>
     (\<exists>b. getBlock dimension (checkPosAt pos y) = Some b \<and> typeId b \<noteq> allowedBlock))"
  then have "\<not> matching dimension allowedBlock (checkPosAt pos y)"
    by (auto simp: matching_def)
  with h show "downLoop cfg dimension pos allowedBlock y s =
      downLoop cfg dimension pos allowedBlock (y - 1) s"
    by (simp add: downLoop_skip)
next
  assume h: "y \<le> maximum cfg \<and> \<not> upStop cfg dimensionName (vy pos + y) \<and>
    (getBlock dimension (checkPosAt pos y) = None \<or>
     (\<exists>b. getBlock dimension (checkPosAt pos y) = Some b \<and> typeId b \<noteq> allowedBlock))"
  then have "\<not> matching dimension allowedBlock (checkPosAt pos y)"
    by (auto simp: matching_def)
  with h show "upLoop cfg dimension pos allowedBlock dimensionName y s =
      upLoop cfg dimension pos allowedBlock dimensionName (y + 1) s"
    by (simp add: upLoop_skip)
next
  assume "scanResult (downLoop cfg dimension pos allowedBlock (- 2) initScan) = None"
  then show "handleDownTeleport cfg p dimension pos allowedBlock st calls = (p, st, calls)"
    by (simp add: handleDownTeleport_def)
next
  assume "scanResult (upLoop cfg dimension pos allowedBlock dimensionName 1 initScan) = None"
  then show "handleUpTeleport cfg p dimension pos allowedBlock st dimensionName calls =
      (p, st, calls)"
    by (simp add: handleUpTeleport_def)
qed

theorem non_match_continues_exhaustion_is_silent_witness:
  "downLoop config shaftDown \<lparr>vx = 0, vy = 7, vz = 0\<rparr> ''minecraft:gold_block'' (- 2)
     initScan =
   downLoop config shaftDown \<lparr>vx = 0, vy = 7, vz = 0\<rparr> ''minecraft:gold_block'' (- 2 - 1)
     initScan \<and>
   upLoop config shaftDown \<lparr>vx = 0, vy = 10, vz = 0\<rparr> ''minecraft:diamond_block''
     ''minecraft:overworld'' 1 initScan =
   upLoop config shaftDown \<lparr>vx = 0, vy = 10, vz = 0\<rparr> ''minecraft:diamond_block''
     ''minecraft:overworld'' (1 + 1) initScan \<and>
   handleDownTeleport (config\<lparr>miniLimit := 6\<rparr>) sneaker shaftDown \<lparr>vx = 0, vy = 10, vz = 0\<rparr>
     ''minecraft:diamond_block'' \<lparr>hasTeleportedDown = False, hasTeleportedUp = False\<rparr> [] =
     (sneaker, \<lparr>hasTeleportedDown = False, hasTeleportedUp = False\<rparr>, []) \<and>
   handleUpTeleport config jumper shaftUp \<lparr>vx = 0, vy = 330, vz = 0\<rparr>
     ''minecraft:diamond_block'' \<lparr>hasTeleportedDown = False, hasTeleportedUp = False\<rparr>
     ''minecraft:nether'' [] =
     (jumper, \<lparr>hasTeleportedDown = False, hasTeleportedUp = False\<rparr>, [])"
proof (intro conjI)
  note t = non_match_continues_exhaustion_is_silent
  show "downLoop config shaftDown \<lparr>vx = 0, vy = 7, vz = 0\<rparr> ''minecraft:gold_block'' (- 2)
     initScan =
   downLoop config shaftDown \<lparr>vx = 0, vy = 7, vz = 0\<rparr> ''minecraft:gold_block'' (- 2 - 1)
     initScan"
    using t [of config "- 2" "\<lparr>vx = 0, vy = 7, vz = 0\<rparr>" shaftDown
        "''minecraft:gold_block''" initScan, THEN conjunct1]
    by (simp add: config_def shaftDown_def column_def checkPosAt_def)
  show "upLoop config shaftDown \<lparr>vx = 0, vy = 10, vz = 0\<rparr> ''minecraft:diamond_block''
     ''minecraft:overworld'' 1 initScan =
   upLoop config shaftDown \<lparr>vx = 0, vy = 10, vz = 0\<rparr> ''minecraft:diamond_block''
     ''minecraft:overworld'' (1 + 1) initScan"
    using t [of config 1 "\<lparr>vx = 0, vy = 10, vz = 0\<rparr>" shaftDown
        "''minecraft:diamond_block''" initScan "''minecraft:overworld''",
        THEN conjunct2, THEN conjunct1]
    by (simp add: config_def shaftDown_def column_def checkPosAt_def upStop_def)
  show "handleDownTeleport (config\<lparr>miniLimit := 6\<rparr>) sneaker shaftDown
     \<lparr>vx = 0, vy = 10, vz = 0\<rparr>
     ''minecraft:diamond_block'' \<lparr>hasTeleportedDown = False, hasTeleportedUp = False\<rparr> [] =
     (sneaker, \<lparr>hasTeleportedDown = False, hasTeleportedUp = False\<rparr>, [])"
    using t [of "config\<lparr>miniLimit := 6\<rparr>" _ "\<lparr>vx = 0, vy = 10, vz = 0\<rparr>" shaftDown
        "''minecraft:diamond_block''", THEN conjunct2, THEN conjunct2, THEN conjunct1]
    by (simp add: scanB)
  show "handleUpTeleport config jumper shaftUp \<lparr>vx = 0, vy = 330, vz = 0\<rparr>
     ''minecraft:diamond_block'' \<lparr>hasTeleportedDown = False, hasTeleportedUp = False\<rparr>
     ''minecraft:nether'' [] =
     (jumper, \<lparr>hasTeleportedDown = False, hasTeleportedUp = False\<rparr>, [])"
    using t [of config _ "\<lparr>vx = 0, vy = 330, vz = 0\<rparr>" shaftUp
        "''minecraft:diamond_block''" _ "''minecraft:nether''",
        THEN conjunct2, THEN conjunct2, THEN conjunct2]
    by (simp add: scanD)
qed

text \<open>
  C9. The scan as implemented, which visits every offset and tracks a running minimum
  distance, returns what the simplified scan returns, which stops at the first match: the
  same found position or, in both, nothing. This holds for every origin, target type,
  world, region name and configuration, downward and upward.
\<close>

theorem running_minimum_is_first_match:
  "scanResult (downLoop cfg dimension pos allowedBlock (- 2) initScan) =
     downFirst cfg dimension pos allowedBlock (- 2) \<and>
   scanResult (upLoop cfg dimension pos allowedBlock dimensionName 1 initScan) =
     upFirst cfg dimension pos allowedBlock dimensionName 1"
  by (simp only: scanDown_first scanUp_first)

theorem running_minimum_is_first_match_witness:
  "downFirst config shaftDown \<lparr>vx = 0, vy = 10, vz = 0\<rparr> ''minecraft:diamond_block'' (- 2) =
     Some \<lparr>vx = 0, vy = 5, vz = 0\<rparr> \<and>
   upFirst config shaftUp \<lparr>vx = 0, vy = 330, vz = 0\<rparr> ''minecraft:diamond_block''
     ''minecraft:nether'' 1 = None"
  using running_minimum_is_first_match [of config shaftDown "\<lparr>vx = 0, vy = 10, vz = 0\<rparr>"
      "''minecraft:diamond_block''" "''minecraft:overworld''"]
    running_minimum_is_first_match [of config shaftUp "\<lparr>vx = 0, vy = 330, vz = 0\<rparr>"
      "''minecraft:diamond_block''" "''minecraft:nether''"]
  by (simp add: scanA scanD)

text \<open>
  C10. In one tick, for a player whose handles all carry the same \<open>isSneaking\<close> and
  \<open>isJumping\<close> values, at most one teleport is invoked in total, over all regions, all
  allowed block types and both directions.
\<close>

theorem at_most_one_teleport_per_tick:
  "(\<forall>dn \<in> set (dimensions cfg). \<forall>q \<in> set (getPlayers (w dn)).
      playerId q = i \<longrightarrow> isSneaking q = sn \<and> isJumping q = jp)
   \<longrightarrow> length (filter (\<lambda>c. fst c = i) (snd (tick cfg w playerStates))) \<le> 1"
proof
  assume "\<forall>dn \<in> set (dimensions cfg). \<forall>q \<in> set (getPlayers (w dn)).
      playerId q = i \<longrightarrow> isSneaking q = sn \<and> isJumping q = jp"
  then have "firedOnce i sn jp (tick cfg w playerStates)" by (rule tick_firedOnce)
  then show "length (filter (\<lambda>c. fst c = i) (snd (tick cfg w playerStates))) \<le> 1"
    by (rule firedOnce_length)
qed

theorem at_most_one_teleport_per_tick_witness:
  "length (filter (\<lambda>c. fst c = ''steve'')
     (snd (tick config (onlyIn ''minecraft:overworld'' shaftDown) Map.empty))) \<le> 1 \<and>
   snd (tick config (onlyIn ''minecraft:overworld'' shaftDown) Map.empty) =
     [(''steve'', \<lparr>vx = 0.5, vy = 6, vz = 0.5\<rparr>)]"
proof
  show "length (filter (\<lambda>c. fst c = ''steve'')
     (snd (tick config (onlyIn ''minecraft:overworld'' shaftDown) Map.empty))) \<le> 1"
    using at_most_one_teleport_per_tick [where cfg = config and i = "''steve''" and
        w = "onlyIn ''minecraft:overworld'' shaftDown" and sn = True and jp = False and
        playerStates = Map.empty]
    by (simp add: config_dimensions onlyIn_def emptyDimension_def shaftDown_def sneaker_def)
  show "snd (tick config (onlyIn ''minecraft:overworld'' shaftDown) Map.empty) =
     [(''steve'', \<lparr>vx = 0.5, vy = 6, vz = 0.5\<rparr>)]"
    by (rule tickA)
qed

end
